theory Spec2Isabelle
  imports Main "HOL-Library.Multiset"
begin

section \<open>Python values used by the fetch pipeline\<close>

text \<open>
  The program is one Python module, \<^verbatim>\<open>src/main.py\<close>. Python integers are unbounded and are
  modelled as \<^typ>\<open>int\<close>; Python strings are modelled as \<^typ>\<open>string\<close>. Exceptions are
  values: a computation that may raise returns \<open>exn + 'a\<close>, with \<open>Inl\<close> the exception.
  Only classes derived from Python's \<^verbatim>\<open>Exception\<close> are modelled, which is what the network,
  the parser and the file system raise; every \<^verbatim>\<open>except Exception\<close> of the source therefore
  catches each constructor of \<open>exn\<close>.
\<close>

datatype exn = FileNotFoundError | OSError | ValueError | TypeError | RequestException

definition bind_exn :: "exn + 'a \<Rightarrow> ('a \<Rightarrow> exn + 'b) \<Rightarrow> exn + 'b" where
  "bind_exn m f = (case m of Inl e \<Rightarrow> Inl e | Inr x \<Rightarrow> f x)"

subsection \<open>Decimal rendering: the format specification \<^verbatim>\<open>06\<close>\<close>

definition digit_char :: "nat \<Rightarrow> char" where
  "digit_char d = char_of (48 + d)"

fun digits_of :: "nat \<Rightarrow> string" where
  "digits_of n = (if n < 10 then [digit_char n] else digits_of (n div 10) @ [digit_char (n mod 10)])"

declare digits_of.simps [simp del]

definition zero_pad :: "nat \<Rightarrow> string \<Rightarrow> string" where
  "zero_pad w s = replicate (w - length s) (CHR ''0'') @ s"

text \<open>
  \<^verbatim>\<open>f"{activation_id_int:06}"\<close>: sign-aware zero padding to a total width of six
  characters; longer numbers keep all their digits.
\<close>

definition fmt06 :: "int \<Rightarrow> string" where
  "fmt06 i = (if i < 0 then CHR ''-'' # zero_pad 5 (digits_of (nat (- i)))
              else zero_pad 6 (digits_of (nat i)))"

subsection \<open>Parsing: the builtin \<^verbatim>\<open>int\<close> on a string\<close>

definition is_digit :: "char \<Rightarrow> bool" where
  "is_digit c = ((48::nat) \<le> of_char c \<and> of_char c \<le> (57::nat))"

definition digit_val :: "char \<Rightarrow> nat" where
  "digit_val c = of_char c - 48"

text \<open>
  The characters that \<^verbatim>\<open>int\<close> drops around a numeral, among the code points below 256: the
  ASCII blanks 9 to 13 and 32, and the two blanks 133 and 160 beyond ASCII. The separators 28
  to 31 are not among them.
\<close>

definition is_space :: "char \<Rightarrow> bool" where
  "is_space c = (let k = (of_char c :: nat) in (9 \<le> k \<and> k \<le> 13) \<or> k = 32 \<or> k = 133 \<or> k = 160)"

definition strip :: "string \<Rightarrow> string" where
  "strip s = rev (dropWhile is_space (rev (dropWhile is_space s)))"

text \<open>
  The digits after the first one: a single underscore is accepted between two digits.
\<close>

fun more_digits :: "nat \<Rightarrow> string \<Rightarrow> nat option" where
  "more_digits acc [] = Some acc"
| "more_digits acc (c # cs) =
     (if is_digit c then more_digits (acc * 10 + digit_val c) cs
      else if c = CHR ''_'' then
        (case cs of
           [] \<Rightarrow> None
         | d # ds \<Rightarrow> if is_digit d then more_digits (acc * 10 + digit_val d) ds else None)
      else None)"

definition parse_nat :: "string \<Rightarrow> nat option" where
  "parse_nat s = (case s of
       [] \<Rightarrow> None
     | c # cs \<Rightarrow> if is_digit c then more_digits (digit_val c) cs else None)"

text \<open>
  \<^verbatim>\<open>int(s)\<close> for a string whose characters are code points below 256, which is what a
  \<^typ>\<open>char\<close> holds: surrounding white space is dropped, one sign is accepted, and anything
  that is not a decimal numeral raises \<^verbatim>\<open>ValueError\<close>. No character from 128 to 255 is a
  decimal digit. The interpreter also refuses a numeral of more than 4300 digits, a bound
  that can be configured; this bound is not modelled, and a property that depends on which
  strings are rejected is stated for strings of at most 4300 characters.
\<close>

definition py_int :: "string \<Rightarrow> exn + int" where
  "py_int s =
     (let t = strip s;
          (neg, body) = (case t of
                           [] \<Rightarrow> (False, t)
                         | c # cs \<Rightarrow> if c = CHR ''-'' then (True, cs)
                                     else if c = CHR ''+'' then (False, cs) else (False, t))
      in case parse_nat body of
           None \<Rightarrow> Inl ValueError
         | Some n \<Rightarrow> Inr (if neg then - int n else int n))"

section \<open>The fetcher\<close>

text \<open>
  What the HTML library reports about a page is data of the model. A \<open>document\<close> holds the
  answers to the two queries of \<^verbatim>\<open>process_activation_id\<close> on the parsed page: the first
  \<^verbatim>\<open>div\<close> with \<^verbatim>\<open>data-controller="copytoclipboard"\<close>, and the first \<^verbatim>\<open>div\<close> of class
  \<^verbatim>\<open>instruction-card\<close>. A \<open>fragment\<close> is the new document built around that card, given by
  the tags the three \<^verbatim>\<open>find_all\<close> loops visit: the \<^verbatim>\<open>link\<close> tags that have an \<^verbatim>\<open>href\<close>
  (with their \<^verbatim>\<open>rel\<close> attribute, a list of words or absent), the \<^verbatim>\<open>src\<close> of the \<^verbatim>\<open>img\<close> tags and
  the \<^verbatim>\<open>href\<close> of the \<^verbatim>\<open>a\<close> tags.
\<close>

record input_tag =
  attr_value :: "string option"

record clipboard =
  find_input :: "input_tag option"

record link_tag =
  link_rel :: "string list option"
  link_href :: string

record fragment =
  frag_links :: "link_tag list"
  frag_imgs :: "string list"
  frag_anchors :: "string list"

record document =
  clipboard_div :: "clipboard option"
  instruction_card :: "fragment option"

record response =
  status_code :: int
  soup :: "exn + document"

text \<open>
  The functions of \<^verbatim>\<open>urllib\<close>, \<^verbatim>\<open>os.path\<close> and \<^verbatim>\<open>hashlib\<close> that the module calls are
  parameters. \<open>urlparse_path\<close> is \<^verbatim>\<open>urlparse(url).path\<close>.
\<close>

record pylib =
  urlparse_path :: "string \<Rightarrow> exn + string"
  basename :: "string \<Rightarrow> string"
  splitext :: "string \<Rightarrow> string \<times> string"
  md5_hexdigest :: "string \<Rightarrow> string"
  path_join :: "string \<Rightarrow> string \<Rightarrow> string"
  urljoin :: "string \<Rightarrow> string \<Rightarrow> exn + string"

text \<open>
  What the network and the file system answer during one call of
  \<^verbatim>\<open>process_activation_id\<close>: the page request, \<^verbatim>\<open>os.path.exists\<close> on an asset path, the
  request for an asset (its status code, unless it raises), and the two writes, which return
  nothing unless they raise.
\<close>

record fetch_env =
  page :: "exn + response"
  path_exists :: "string \<Rightarrow> bool"
  asset_get :: "string \<Rightarrow> exn + int"
  asset_write :: "string \<Rightarrow> exn + unit"
  html_write :: "exn + unit"

definition HTML_DIR :: string where
  "HTML_DIR = ''html_responses''"

definition ASSETS_DIR :: "pylib \<Rightarrow> string" where
  "ASSETS_DIR lib = path_join lib HTML_DIR ''assets''"

text \<open>
  The name under which \<^verbatim>\<open>download_asset\<close> stores the asset of a URL whose path is
  \<open>path\<close>: the file name, eight characters of the digest of the URL, and the extension.
\<close>

definition asset_save_name :: "pylib \<Rightarrow> string \<Rightarrow> string \<Rightarrow> string" where
  "asset_save_name lib path url =
     (let filename = basename lib path;
          filename = (if filename = [] then ''index.html'' else filename);
          url_hash = take 8 (md5_hexdigest lib url);
          (name, ext) = splitext lib filename;
          ext = (if CHR ''?'' \<in> set ext then takeWhile (\<lambda>c. c \<noteq> CHR ''?'') ext else ext)
      in name @ ''_'' @ url_hash @ ext)"

text \<open>The body of the \<^verbatim>\<open>try\<close> block of \<^verbatim>\<open>download_asset\<close>.\<close>

definition download_asset_try :: "pylib \<Rightarrow> fetch_env \<Rightarrow> string \<Rightarrow> exn + string" where
  "download_asset_try lib env url =
     bind_exn (urlparse_path lib url) (\<lambda>path.
       let save_name = asset_save_name lib path url;
           save_path = path_join lib (ASSETS_DIR lib) save_name
       in bind_exn
            (if \<not> path_exists env save_path
             then bind_exn (asset_get env url) (\<lambda>resp_status_code.
                    if resp_status_code = 200 then asset_write env save_path else Inr ())
             else Inr ())
            (\<lambda>_. Inr (''assets/'' @ save_name)))"

definition download_asset :: "pylib \<Rightarrow> fetch_env \<Rightarrow> string \<Rightarrow> string" where
  "download_asset lib env url =
     (case download_asset_try lib env url of Inl e \<Rightarrow> url | Inr local_path \<Rightarrow> local_path)"

record result =
  id' :: string
  secret_code :: string
  status :: int

text \<open>Step 1 of the \<^verbatim>\<open>200\<close> branch: the value of the input field inside the clipboard container.\<close>

definition parse_secret_code :: "document \<Rightarrow> result \<Rightarrow> result" where
  "parse_secret_code original_soup result =
     (case clipboard_div original_soup of
        None \<Rightarrow> result
      | Some clipboard \<Rightarrow>
          (case find_input clipboard of
             None \<Rightarrow> result
           | Some input_field \<Rightarrow>
               (case attr_value input_field of
                  None \<Rightarrow> result
                | Some v \<Rightarrow> if v \<noteq> [] then result\<lparr>secret_code := v\<rparr> else result)))"

text \<open>Step C: the three loops that rewrite the references of the new document.\<close>

fun rewrite_links :: "pylib \<Rightarrow> fetch_env \<Rightarrow> string \<Rightarrow> link_tag list \<Rightarrow> exn + link_tag list" where
  "rewrite_links lib env url [] = Inr []"
| "rewrite_links lib env url (tag # tags) =
     (case (if link_rel tag = Some [''stylesheet'']
            then (case urljoin lib url (link_href tag) of
                    Inl e \<Rightarrow> Inl e
                  | Inr abs_url \<Rightarrow> Inr (tag\<lparr>link_href := download_asset lib env abs_url\<rparr>))
            else Inr tag) of
        Inl e \<Rightarrow> Inl e
      | Inr tag' \<Rightarrow>
          (case rewrite_links lib env url tags of
             Inl e \<Rightarrow> Inl e
           | Inr tags' \<Rightarrow> Inr (tag' # tags')))"

fun rewrite_imgs :: "pylib \<Rightarrow> fetch_env \<Rightarrow> string \<Rightarrow> string list \<Rightarrow> exn + string list" where
  "rewrite_imgs lib env url [] = Inr []"
| "rewrite_imgs lib env url (src # srcs) =
     (case urljoin lib url src of
        Inl e \<Rightarrow> Inl e
      | Inr abs_url \<Rightarrow>
          (case rewrite_imgs lib env url srcs of
             Inl e \<Rightarrow> Inl e
           | Inr srcs' \<Rightarrow> Inr (download_asset lib env abs_url # srcs')))"

fun rewrite_anchors :: "pylib \<Rightarrow> string \<Rightarrow> string list \<Rightarrow> exn + string list" where
  "rewrite_anchors lib url [] = Inr []"
| "rewrite_anchors lib url (href # hrefs) =
     (case urljoin lib url href of
        Inl e \<Rightarrow> Inl e
      | Inr abs_url \<Rightarrow>
          (case rewrite_anchors lib url hrefs of
             Inl e \<Rightarrow> Inl e
           | Inr hrefs' \<Rightarrow> Inr (abs_url # hrefs')))"

text \<open>
  Step 2, once the instruction card was found: rewrite the references and save the new
  document. The value is the saved document.
\<close>

definition save_fragment :: "pylib \<Rightarrow> fetch_env \<Rightarrow> string \<Rightarrow> fragment \<Rightarrow> exn + fragment" where
  "save_fragment lib env url new_soup =
     bind_exn (rewrite_links lib env url (frag_links new_soup)) (\<lambda>links.
     bind_exn (rewrite_imgs lib env url (frag_imgs new_soup)) (\<lambda>imgs.
     bind_exn (rewrite_anchors lib url (frag_anchors new_soup)) (\<lambda>anchors.
     bind_exn (html_write env) (\<lambda>_.
       Inr \<lparr>frag_links = links, frag_imgs = imgs, frag_anchors = anchors\<rparr>))))"

text \<open>
  The body of the \<^verbatim>\<open>try\<close> block of \<^verbatim>\<open>process_activation_id\<close>. It returns the result
  dictionary and, when a document was saved, the saved document.
\<close>

definition process_try ::
  "pylib \<Rightarrow> fetch_env \<Rightarrow> string \<Rightarrow> result \<Rightarrow> exn + result \<times> fragment option" where
  "process_try lib env url result =
     bind_exn (page env) (\<lambda>response.
       let result = result\<lparr>status := status_code response\<rparr> in
       if status_code response = 200 then
         bind_exn (soup response) (\<lambda>original_soup.
           let result = parse_secret_code original_soup result in
           case instruction_card original_soup of
             None \<Rightarrow> Inr (result, None)
           | Some new_soup \<Rightarrow>
               bind_exn (save_fragment lib env url new_soup) (\<lambda>saved.
                 Inr (result, Some saved)))
       else Inr (result, None))"

text \<open>
  \<^verbatim>\<open>process_activation_id\<close>. An exception of the body leaves the identifier of the result as
  it was and overwrites the other two fields.
\<close>

definition activation_url :: "int \<Rightarrow> string" where
  "activation_url activation_id_int = ''https://www.joinsecret.com/activation/'' @ fmt06 activation_id_int"

definition initial_result :: "int \<Rightarrow> result" where
  "initial_result activation_id_int =
     \<lparr>id' = fmt06 activation_id_int, secret_code = ''Not Found'', status = 0\<rparr>"

definition process_activation_id ::
  "pylib \<Rightarrow> fetch_env \<Rightarrow> int \<Rightarrow> exn + result \<times> fragment option" where
  "process_activation_id lib env activation_id_int =
     (let url = activation_url activation_id_int;
          result = initial_result activation_id_int
      in case process_try lib env url result of
           Inl e \<Rightarrow> Inr (result\<lparr>status := 0, secret_code := ''Error''\<rparr>, None)
         | Inr r \<Rightarrow> Inr r)"

section \<open>The identifier source\<close>

text \<open>
  A row of \<^verbatim>\<open>csv.DictReader\<close> is a dictionary from column names to values; the value of a
  column that a short line does not reach is \<^verbatim>\<open>None\<close>. The file as the reader delivers it is
  a list of rows, unless opening or reading it raises.
\<close>

datatype pyval = PyNone | PyStr string

type_synonym in_row = "string \<Rightarrow> pyval option"

definition int_of_pyval :: "pyval \<Rightarrow> exn + int" where
  "int_of_pyval v = (case v of PyNone \<Rightarrow> Inl TypeError | PyStr s \<Rightarrow> py_int s)"

text \<open>The loop over the rows; only \<^verbatim>\<open>ValueError\<close> is caught inside it.\<close>

fun read_rows :: "in_row list \<Rightarrow> int list \<Rightarrow> exn + int list" where
  "read_rows [] ids = Inr ids"
| "read_rows (row # rows) ids =
     (case row ''Activation ID'' of
        None \<Rightarrow> read_rows rows ids
      | Some v \<Rightarrow>
          (case int_of_pyval v of
             Inl e \<Rightarrow> if e = ValueError then read_rows rows ids else Inl e
           | Inr n \<Rightarrow> read_rows rows (ids @ [n])))"

definition get_ids_from_csv :: "exn + in_row list \<Rightarrow> exn + int list" where
  "get_ids_from_csv file =
     (case bind_exn file (\<lambda>rows. read_rows rows []) of
        Inl e \<Rightarrow> if e = FileNotFoundError then Inr [] else Inl e
      | Inr ids \<Rightarrow> Inr ids)"

section \<open>Rounds, the retry loop and the output file\<close>

text \<open>
  A cell of an output row is a Python string or integer, as passed to \<^verbatim>\<open>writerow\<close>. The
  file system holds the output file, a list of rows or absent, and the archive. A row of a
  file that an earlier run left behind is any list of cells, so it also stands for a record
  that was cut short. Opening and writing these two files is taken to succeed. The saved
  documents and assets are not part of this state.
\<close>

datatype cell = S string | I int

type_synonym row = "cell list"

record fs =
  output_csv :: "row list option"
  zip_file :: bool

text \<open>
  The world of one run: the input file, what each call of the fetcher meets (by iteration,
  position in the submitted list and identifier), and the order in which the futures of an
  iteration complete.
\<close>

record world =
  input_csv :: "exn + in_row list"
  fetch :: "nat \<Rightarrow> nat \<Rightarrow> int \<Rightarrow> fetch_env"
  completion :: "nat \<Rightarrow> nat list"

definition header :: row where
  "header = [S ''Activation ID'', S ''Secret Code'', S ''Status Code'']"

text \<open>Opening the file in mode \<^verbatim>\<open>a\<close> and writing rows: the old rows stay, the new follow.\<close>

definition append_rows :: "fs \<Rightarrow> row list \<Rightarrow> fs" where
  "append_rows st rows =
     st\<lparr>output_csv := Some ((case output_csv st of None \<Rightarrow> [] | Some old \<Rightarrow> old) @ rows)\<rparr>"

definition create_zip_archive :: "fs \<Rightarrow> fs" where
  "create_zip_archive st = st\<lparr>zip_file := True\<rparr>"

text \<open>One future per element of the list, in the order of the list.\<close>

definition submit_all ::
  "pylib \<Rightarrow> world \<Rightarrow> nat \<Rightarrow> int list \<Rightarrow> (exn + result \<times> fragment option) list" where
  "submit_all lib w iteration ids_to_process =
     map (\<lambda>(k, i). process_activation_id lib (fetch w iteration k i) i)
         (enumerate 0 ids_to_process)"

text \<open>
  \<^verbatim>\<open>as_completed\<close> yields every future once, in an order the program does not control:
  each pick removes one of the futures still pending.
\<close>

fun as_completed :: "nat list \<Rightarrow> 'a list \<Rightarrow> 'a list" where
  "as_completed picks [] = []"
| "as_completed [] pending = pending"
| "as_completed (p # picks) pending =
     (let k = p mod length pending
      in pending ! k # as_completed picks (take k pending @ drop (Suc k) pending))"

text \<open>
  The loop over the completed futures, with the rows written so far in this iteration and
  \<^verbatim>\<open>retry_ids\<close>. An exception ends it and keeps what was written.
\<close>

fun collect ::
  "(exn + result \<times> fragment option) list \<Rightarrow> row list \<Rightarrow> int list
     \<Rightarrow> exn option \<times> row list \<times> int list" where
  "collect [] written retry_ids = (None, written, retry_ids)"
| "collect (future # futures) written retry_ids =
     (case future of
        Inl e \<Rightarrow> (Some e, written, retry_ids)
      | Inr (data, saved) \<Rightarrow>
          if status data = 200 \<or> status data = 404
          then collect futures
                 (written @ [[S (id' data), S (secret_code data), I (status data)]]) retry_ids
          else (case py_int (id' data) of
                  Inl e \<Rightarrow> (Some e, written, retry_ids)
                | Inr n \<Rightarrow> collect futures written (retry_ids @ [n])))"

definition run_round ::
  "pylib \<Rightarrow> world \<Rightarrow> nat \<Rightarrow> int list \<Rightarrow> exn option \<times> row list \<times> int list" where
  "run_round lib w iteration ids_to_process =
     collect (as_completed (completion w iteration) (submit_all lib w iteration ids_to_process))
       [] []"

text \<open>
  The \<^verbatim>\<open>while\<close> loop of \<^verbatim>\<open>main\<close>. It may run forever: the value \<open>None\<close> is a run that does
  not return. A run that returns gives the exception that ended it, if any, and the file system.
\<close>

partial_function (option) retry_loop ::
  "pylib \<Rightarrow> world \<Rightarrow> nat \<Rightarrow> int list \<Rightarrow> fs \<Rightarrow> (exn option \<times> fs) option" where
  "retry_loop lib w iteration ids_to_process st =
     (if ids_to_process = [] then Some (None, st)
      else
        (case run_round lib w iteration ids_to_process of
           (Some e, written, retry_ids) \<Rightarrow> Some (Some e, append_rows st written)
         | (None, written, retry_ids) \<Rightarrow>
             if retry_ids \<noteq> []
             then retry_loop lib w (iteration + 1) retry_ids (append_rows st written)
             else retry_loop lib w iteration retry_ids (append_rows st written)))"

declare retry_loop.simps [code]

definition main :: "pylib \<Rightarrow> world \<Rightarrow> fs \<Rightarrow> (exn option \<times> fs) option" where
  "main lib w st =
     (case get_ids_from_csv (input_csv w) of
        Inl e \<Rightarrow> Some (Some e, st)
      | Inr ids_to_process \<Rightarrow>
          let file_exists = (output_csv st \<noteq> None);
              st = (if \<not> file_exists then st\<lparr>output_csv := Some [header]\<rparr> else st)
          in (case retry_loop lib w 1 ids_to_process st of
                None \<Rightarrow> None
              | Some (Some e, st') \<Rightarrow> Some (Some e, st')
              | Some (None, st') \<Rightarrow> Some (None, create_zip_archive st')))"

section \<open>Notions used to state the properties\<close>

text \<open>
  A round of which only the first \<open>m\<close> completed futures have been handled: what the loop
  over the futures has written and collected by then.
\<close>

definition partial_round ::
  "pylib \<Rightarrow> world \<Rightarrow> nat \<Rightarrow> int list \<Rightarrow> nat \<Rightarrow> exn option \<times> row list \<times> int list" where
  "partial_round lib w iteration ids_to_process m =
     collect
       (take m (as_completed (completion w iteration) (submit_all lib w iteration ids_to_process)))
       [] []"

text \<open>
  The file system at a moment of the loop: after \<open>n\<close> whole rounds and the first \<open>m\<close> futures
  of the next one. A run that is killed, or that never returns, leaves one of these states;
  a pending list that becomes empty ends the loop and leaves the state as it is.
\<close>

fun interrupted :: "pylib \<Rightarrow> world \<Rightarrow> nat \<Rightarrow> nat \<Rightarrow> nat \<Rightarrow> int list \<Rightarrow> fs \<Rightarrow> fs" where
  "interrupted lib w 0 m iteration ids st =
     (if ids = [] then st
      else (case partial_round lib w iteration ids m of
              (e, written, retry_ids) \<Rightarrow> append_rows st written))"
| "interrupted lib w (Suc n) m iteration ids st =
     (if ids = [] then st
      else (case run_round lib w iteration ids of
              (Some e, written, retry_ids) \<Rightarrow> append_rows st written
            | (None, written, retry_ids) \<Rightarrow>
                interrupted lib w n m (iteration + 1) retry_ids (append_rows st written)))"

text \<open>What step 1 extracts from a page: the non-empty value of the input field, if any.\<close>

definition input_value :: "document \<Rightarrow> string option" where
  "input_value doc =
     (case clipboard_div doc of
        None \<Rightarrow> None
      | Some clipboard \<Rightarrow>
          (case find_input clipboard of
             None \<Rightarrow> None
           | Some input_field \<Rightarrow>
               (case attr_value input_field of
                  None \<Rightarrow> None
                | Some v \<Rightarrow> if v \<noteq> [] then Some v else None)))"

text \<open>The result dictionary and saved document one call of the fetcher produces.\<close>

definition outcome :: "pylib \<Rightarrow> fetch_env \<Rightarrow> int \<Rightarrow> result \<times> fragment option" where
  "outcome lib env i =
     (case process_try lib env (activation_url i) (initial_result i) of
        Inl e \<Rightarrow> ((initial_result i)\<lparr>status := 0, secret_code := ''Error''\<rparr>, None)
      | Inr r \<Rightarrow> r)"

text \<open>The status of the attempt made in an iteration for the identifier at a position.\<close>

definition attempt_status :: "pylib \<Rightarrow> world \<Rightarrow> nat \<Rightarrow> nat \<Rightarrow> int \<Rightarrow> int" where
  "attempt_status lib w iteration k i = status (fst (outcome lib (fetch w iteration k i) i))"

definition count_status :: "pylib \<Rightarrow> world \<Rightarrow> nat \<Rightarrow> int list \<Rightarrow> (int \<Rightarrow> bool) \<Rightarrow> nat" where
  "count_status lib w iteration ids P =
     length (filter (\<lambda>(k, i). P (attempt_status lib w iteration k i)) (enumerate 0 ids))"

definition row_of :: "result \<Rightarrow> row" where
  "row_of data = [S (id' data), S (secret_code data), I (status data)]"

text \<open>The identifier column of an output row.\<close>

definition settled_id :: "row \<Rightarrow> string" where
  "settled_id r = (case r of S a # rest \<Rightarrow> a | _ \<Rightarrow> [])"

text \<open>
  Whether the attempt at a position of an iteration settles its identifier, and the row it
  writes when it does.
\<close>

definition settles :: "pylib \<Rightarrow> world \<Rightarrow> nat \<Rightarrow> nat \<times> int \<Rightarrow> bool" where
  "settles lib w iteration = (\<lambda>(k, i).
     attempt_status lib w iteration k i = 200 \<or> attempt_status lib w iteration k i = 404)"

definition attempt_row :: "pylib \<Rightarrow> world \<Rightarrow> nat \<Rightarrow> nat \<times> int \<Rightarrow> row" where
  "attempt_row lib w iteration = (\<lambda>(k, i). row_of (fst (outcome lib (fetch w iteration k i) i)))"

text \<open>The rows of the output file; none when the file is absent.\<close>

definition rows_of :: "fs \<Rightarrow> row list" where
  "rows_of st = (case output_csv st of None \<Rightarrow> [] | Some rows \<Rightarrow> rows)"

text \<open>The file system once \<^verbatim>\<open>main\<close> has made sure that the output file exists.\<close>

definition started :: "fs \<Rightarrow> fs" where
  "started st = (if output_csv st = None then st\<lparr>output_csv := Some [header]\<rparr> else st)"

text \<open>
  The file system at a moment of a run of \<^verbatim>\<open>main\<close> that has read its input: the output file
  exists, and the loop has gone through \<open>n\<close> rounds and \<open>m\<close> futures of the next.
\<close>

definition main_interrupted :: "pylib \<Rightarrow> world \<Rightarrow> nat \<Rightarrow> nat \<Rightarrow> fs \<Rightarrow> fs" where
  "main_interrupted lib w n m st =
     (case get_ids_from_csv (input_csv w) of
        Inl e \<Rightarrow> st
      | Inr ids \<Rightarrow> interrupted lib w n m 1 ids (started st))"



text \<open>The identifiers still pending after a number of further iterations of the loop.\<close>

fun pending_after :: "pylib \<Rightarrow> world \<Rightarrow> nat \<Rightarrow> nat \<Rightarrow> int list \<Rightarrow> int list" where
  "pending_after lib w 0 iteration ids = ids"
| "pending_after lib w (Suc n) iteration ids =
     (if ids = [] then []
      else (case run_round lib w iteration ids of
              (e, written, retry_ids) \<Rightarrow> pending_after lib w n (iteration + 1) retry_ids))"

text \<open>The value of a decimal numeral read from the left, one digit at a time.\<close>

definition dec_step :: "nat \<Rightarrow> char \<Rightarrow> nat" where
  "dec_step a c = a * 10 + digit_val c"

section \<open>A concrete library and concrete worlds\<close>

text \<open>
  One instance of the library functions, enough for absolute URLs and paths with \<^verbatim>\<open>/\<close>: the
  path of a URL is what follows the host, up to a query or fragment; the digest is a fixed
  string.
\<close>

definition demo_url_path :: "string \<Rightarrow> string" where
  "demo_url_path url =
     takeWhile (\<lambda>c. c \<noteq> CHR ''?'' \<and> c \<noteq> CHR ''#'')
       (dropWhile (\<lambda>c. c \<noteq> CHR ''/'') (drop 2 (dropWhile (\<lambda>c. c \<noteq> CHR ''/'') url)))"

definition demo_splitext :: "string \<Rightarrow> string \<times> string" where
  "demo_splitext f =
     (if CHR ''.'' \<in> set f
      then (rev (tl (dropWhile (\<lambda>c. c \<noteq> CHR ''.'') (rev f))),
            CHR ''.'' # rev (takeWhile (\<lambda>c. c \<noteq> CHR ''.'') (rev f)))
      else (f, []))"

definition demo_lib :: pylib where
  "demo_lib =
     \<lparr>urlparse_path = (\<lambda>url. Inr (demo_url_path url)),
      basename = (\<lambda>p. rev (takeWhile (\<lambda>c. c \<noteq> CHR ''/'') (rev p))),
      splitext = demo_splitext,
      md5_hexdigest = (\<lambda>url. ''0123456789abcdef0123456789abcdef''),
      path_join = (\<lambda>a b. a @ ''/'' @ b),
      urljoin = (\<lambda>base u. Inr u)\<rparr>"

text \<open>A page with a status and, possibly, a clipboard input value; no instruction card.\<close>

definition page_of :: "int \<Rightarrow> string option \<Rightarrow> response" where
  "page_of s v =
     \<lparr>status_code = s,
      soup = Inr \<lparr>clipboard_div =
                    (case v of
                       None \<Rightarrow> None
                     | Some c \<Rightarrow> Some \<lparr>find_input = Some \<lparr>attr_value = Some c\<rparr>\<rparr>),
                  instruction_card = None\<rparr>\<rparr>"

text \<open>A call that meets the given answer to the page request; nothing else fails.\<close>

definition page_env :: "exn + response \<Rightarrow> fetch_env" where
  "page_env p =
     \<lparr>page = p, path_exists = (\<lambda>path. False), asset_get = (\<lambda>url. Inr 200),
      asset_write = (\<lambda>path. Inr ()), html_write = Inr ()\<rparr>"

definition id_row :: "string \<Rightarrow> in_row" where
  "id_row s = (\<lambda>column. if column = ''Activation ID'' then Some (PyStr s) else None)"

definition fresh :: fs where
  "fresh = \<lparr>output_csv = None, zip_file = False\<rparr>"

text \<open>An output file left by an earlier run: the header and one record.\<close>

definition resumed :: fs where
  "resumed =
     \<lparr>output_csv = Some [header, [S ''000009'', S ''OLD999'', I 200]], zip_file = False\<rparr>"

text \<open>
  The end-to-end scenario of the specification: identifiers 1, 2 and 3; 1 answers 200 with
  the code ABC123, 2 answers 404, 3 answers 429 in the first iteration and then 200 with the
  code ZZZ999.
\<close>

definition scenario :: world where
  "scenario =
     \<lparr>input_csv = Inr [id_row ''1'', id_row ''2'', id_row ''3''],
      fetch = (\<lambda>iteration k i. page_env (Inr
                (if i = 1 then page_of 200 (Some ''ABC123'')
                 else if i = 2 then page_of 404 None
                 else if iteration = 1 then page_of 429 None
                 else page_of 200 (Some ''ZZZ999'')))),
      completion = (\<lambda>iteration. [1, 0])\<rparr>"

text \<open>A page that answers 200, has no clipboard container and has an instruction card.\<close>

definition card_page :: "fragment \<Rightarrow> response" where
  "card_page frag =
     \<lparr>status_code = 200,
      soup = Inr \<lparr>clipboard_div = None, instruction_card = Some frag\<rparr>\<rparr>"

text \<open>A call whose page has an empty card and whose document cannot be saved.\<close>

definition unwritable_env :: fetch_env where
  "unwritable_env =
     (page_env (Inr (card_page \<lparr>frag_links = [], frag_imgs = [], frag_anchors = []\<rparr>)))
       \<lparr>html_write := Inl OSError\<rparr>"

text \<open>A call whose card shows one image, while the server answers 404 for every asset.\<close>

definition logo_url :: string where
  "logo_url = ''https://cdn.example/img/logo.png''"

definition missing_asset_env :: fetch_env where
  "missing_asset_env =
     (page_env (Inr (card_page \<lparr>frag_links = [], frag_imgs = [logo_url], frag_anchors = []\<rparr>)))
       \<lparr>asset_get := (\<lambda>url. Inr 404)\<rparr>"

text \<open>
  A library whose \<^verbatim>\<open>urljoin\<close> raises on a reference with an unclosed bracket, as the one
  of \<^verbatim>\<open>urllib\<close> does, and a call whose card shows an image with such a reference.
\<close>

definition strict_lib :: pylib where
  "strict_lib =
     demo_lib\<lparr>urljoin := (\<lambda>base u. if CHR ''['' \<in> set u \<and> CHR '']'' \<notin> set u
                                  then Inl ValueError else Inr u)\<rparr>"

definition bad_reference_env :: fetch_env where
  "bad_reference_env =
     page_env (Inr (card_page \<lparr>frag_links = [], frag_imgs = [''http://[bad/x.png''],
                                 frag_anchors = []\<rparr>))"

text \<open>
  A world whose input lists the identifier 1 twice; the request at the first position answers
  200 and the one at the second position answers 429.
\<close>

definition twin_world :: world where
  "twin_world =
     \<lparr>input_csv = Inr [id_row ''1'', id_row ''1''],
      fetch = (\<lambda>iteration k i. page_env (Inr (if k = 0 then page_of 200 None
                                              else page_of 429 None))),
      completion = (\<lambda>iteration. [])\<rparr>"

text \<open>A world in which the identifier 3 is answered 429 at every attempt.\<close>

definition stuck_world :: world where
  "stuck_world =
     \<lparr>input_csv = Inr [id_row ''1'', id_row ''3''],
      fetch = (\<lambda>iteration k i. page_env (Inr (if i = 3 then page_of 429 None
                                              else page_of 200 None))),
      completion = (\<lambda>iteration. [])\<rparr>"

text \<open>A world whose only page answers 200 and shows the input value \<^verbatim>\<open>Error\<close>.\<close>

definition echo_world :: world where
  "echo_world =
     \<lparr>input_csv = Inr [id_row ''7''],
      fetch = (\<lambda>iteration k i. page_env (Inr (page_of 200 (Some ''Error'')))),
      completion = (\<lambda>iteration. [])\<rparr>"

text \<open>Worlds without a readable input file: it is missing, or it may not be read.\<close>

definition missing_input_world :: world where
  "missing_input_world = scenario\<lparr>input_csv := Inl FileNotFoundError\<rparr>"

definition unreadable_input_world :: world where
  "unreadable_input_world = scenario\<lparr>input_csv := Inl OSError\<rparr>"

section \<open>Formatting and parsing identifiers\<close>

lemma is_digit_digit_char: "d < 10 \<Longrightarrow> is_digit (digit_char d)"
  by (simp add: is_digit_def digit_char_def)

lemma digit_val_digit_char: "d < 10 \<Longrightarrow> digit_val (digit_char d) = d"
  by (simp add: digit_val_def digit_char_def)

lemma digit_not_space: "is_digit c \<Longrightarrow> \<not> is_space c"
  by (auto simp: is_digit_def is_space_def Let_def)

lemma digit_not_sign: "is_digit c \<Longrightarrow> c \<noteq> CHR ''-'' \<and> c \<noteq> CHR ''+'' \<and> c \<noteq> CHR ''_''"
  by (auto simp: is_digit_def)

lemma digits_of_all_digits: "\<forall>c \<in> set (digits_of n). is_digit c"
proof (induction n rule: digits_of.induct)
  case (1 n)
  show ?case
  proof (cases "n < 10")
    case True
    then show ?thesis by (subst digits_of.simps) (simp add: is_digit_digit_char)
  next
    case False
    then show ?thesis using 1 by (subst digits_of.simps) (simp add: is_digit_digit_char)
  qed
qed

lemma digits_of_nonempty: "digits_of n \<noteq> []"
  by (subst digits_of.simps) simp

lemma more_digits_all_digits:
  "\<forall>c \<in> set s. is_digit c \<Longrightarrow> more_digits acc s = Some (foldl dec_step acc s)"
  by (induction s arbitrary: acc) (simp_all add: dec_step_def)

lemma foldl_digits_of: "foldl dec_step 0 (digits_of n) = n"
proof (induction n rule: digits_of.induct)
  case (1 n)
  show ?case
  proof (cases "n < 10")
    case True
    then show ?thesis by (subst digits_of.simps) (simp add: dec_step_def digit_val_digit_char)
  next
    case False
    then have "foldl dec_step 0 (digits_of n) =
        dec_step (foldl dec_step 0 (digits_of (n div 10))) (digit_char (n mod 10))"
      by (subst digits_of.simps) simp
    also have "\<dots> = dec_step (n div 10) (digit_char (n mod 10))"
      using 1 False by simp
    also have "\<dots> = n"
      by (simp add: dec_step_def digit_val_digit_char)
    finally show ?thesis .
  qed
qed

lemma foldl_zeros: "foldl dec_step 0 (replicate k (CHR ''0'')) = 0"
  by (induction k) (simp_all add: dec_step_def digit_val_def)

lemma zero_pad_all_digits: "\<forall>c \<in> set (zero_pad w (digits_of n)). is_digit c"
  using digits_of_all_digits by (auto simp: zero_pad_def is_digit_def)

lemma zero_pad_nonempty: "zero_pad w (digits_of n) \<noteq> []"
  by (simp add: zero_pad_def digits_of_nonempty)

lemma foldl_zero_pad: "foldl dec_step 0 (zero_pad w (digits_of n)) = n"
  by (simp add: zero_pad_def foldl_zeros foldl_digits_of)

lemma parse_nat_all_digits:
  assumes "s \<noteq> []" and "\<forall>c \<in> set s. is_digit c"
  shows "parse_nat s = Some (foldl dec_step 0 s)"
proof (cases s)
  case Nil
  with assms show ?thesis by simp
next
  case (Cons c cs)
  with assms have "is_digit c" and "\<forall>d \<in> set cs. is_digit d" by simp_all
  then show ?thesis
    by (simp add: Cons parse_nat_def more_digits_all_digits dec_step_def)
qed

lemma parse_nat_zero_pad: "parse_nat (zero_pad w (digits_of n)) = Some n"
  by (simp add: parse_nat_all_digits zero_pad_nonempty zero_pad_all_digits foldl_zero_pad)

lemma strip_no_space:
  assumes "\<forall>c \<in> set s. \<not> is_space c"
  shows "strip s = s"
proof -
  have a: "dropWhile is_space s = s" using assms by (cases s) simp_all
  have b: "dropWhile is_space (rev s) = rev s" using assms by (cases "rev s") (simp, metis dropWhile.simps(2) list.set_intros(1) set_rev)
  show ?thesis by (simp add: strip_def a b)
qed

lemma fmt06_no_space: "\<forall>c \<in> set (fmt06 i). \<not> is_space c"
  using zero_pad_all_digits digit_not_space
  by (auto simp: fmt06_def is_space_def)

lemma py_int_fmt06: "py_int (fmt06 i) = Inr i"
proof (cases "i < 0")
  case True
  have "py_int (fmt06 i) = py_int (CHR ''-'' # zero_pad 5 (digits_of (nat (- i))))"
    using True by (simp add: fmt06_def)
  moreover have "strip (fmt06 i) = fmt06 i" by (rule strip_no_space[OF fmt06_no_space])
  ultimately show ?thesis using True
    by (simp add: py_int_def fmt06_def parse_nat_zero_pad)
next
  case False
  obtain c cs where cs: "zero_pad 6 (digits_of (nat i)) = c # cs"
    using zero_pad_nonempty by (cases "zero_pad 6 (digits_of (nat i))") auto
  have "is_digit c" using zero_pad_all_digits[of 6 "nat i"] cs by simp
  then have ns: "c \<noteq> CHR ''-''" "c \<noteq> CHR ''+''" using digit_not_sign by auto
  have st: "strip (fmt06 i) = fmt06 i" by (rule strip_no_space[OF fmt06_no_space])
  have pn: "parse_nat (c # cs) = Some (nat i)" using parse_nat_zero_pad[of 6 "nat i"] cs by simp
  have f: "fmt06 i = c # cs" using False cs by (simp add: fmt06_def)
  show ?thesis using False ns pn
    by (simp add: py_int_def st[unfolded f] f)
qed

lemma fmt06_inj: "fmt06 i = fmt06 j \<Longrightarrow> i = j"
  by (metis py_int_fmt06 sum.inject(2))

section \<open>Properties of the fetcher\<close>

lemma bind_exn_simps [simp]:
  "bind_exn (Inl e) f = Inl e"
  "bind_exn (Inr x) f = f x"
  by (simp_all add: bind_exn_def)

lemma bind_exn_Inr_iff:
  "bind_exn m f = Inr y \<longleftrightarrow> (\<exists>x. m = Inr x \<and> f x = Inr y)"
  by (cases m) simp_all

lemma parse_secret_code_input_value:
  "parse_secret_code doc r = (case input_value doc of None \<Rightarrow> r | Some v \<Rightarrow> r\<lparr>secret_code := v\<rparr>)"
  by (simp add: parse_secret_code_def input_value_def split: option.splits)

lemma parse_secret_code_frame:
  "status (parse_secret_code doc r) = status r" "id' (parse_secret_code doc r) = id' r"
  by (simp_all add: parse_secret_code_input_value split: option.splits)

lemma process_try_Inr:
  assumes "process_try lib env url r0 = Inr (r, saved)"
  shows "\<exists>resp. page env = Inr resp \<and> status r = status_code resp \<and> id' r = id' r0 \<and>
           (if status_code resp = 200
            then \<exists>doc. soup resp = Inr doc \<and>
                   secret_code r = (case input_value doc of None \<Rightarrow> secret_code r0 | Some v \<Rightarrow> v)
            else secret_code r = secret_code r0 \<and> saved = None)"
proof -
  from assms obtain resp where p: "page env = Inr resp"
    by (cases "page env") (simp_all add: process_try_def)
  show ?thesis
  proof (cases "status_code resp = 200")
    case True
    with assms p obtain doc where d: "soup resp = Inr doc"
      by (cases "soup resp") (simp_all add: process_try_def)
    from assms p True d have "r = parse_secret_code doc (r0\<lparr>status := 200\<rparr>)"
      by (auto simp: process_try_def Let_def bind_exn_Inr_iff split: option.splits)
    then show ?thesis using p True d
      by (simp add: parse_secret_code_input_value split: option.splits)
  next
    case False
    with assms p show ?thesis by (auto simp: process_try_def)
  qed
qed

lemma process_activation_id_outcome:
  "process_activation_id lib env i = Inr (outcome lib env i)"
  by (simp add: process_activation_id_def outcome_def split: sum.splits)

lemma outcome_id: "id' (fst (outcome lib env i)) = fmt06 i"
proof (cases "process_try lib env (activation_url i) (initial_result i)")
  case (Inl e)
  then show ?thesis by (simp add: outcome_def initial_result_def)
next
  case (Inr p)
  obtain r saved where "p = (r, saved)" by (cases p)
  with Inr process_try_Inr[of lib env "activation_url i" "initial_result i" r saved]
  show ?thesis by (auto simp: outcome_def initial_result_def)
qed

lemma outcome_raised:
  "process_try lib env (activation_url i) (initial_result i) = Inl e \<Longrightarrow>
   outcome lib env i = (\<lparr>id' = fmt06 i, secret_code = ''Error'', status = 0\<rparr>, None)"
  by (simp add: outcome_def initial_result_def)

lemma outcome_terminal_not_raised:
  assumes "status (fst (outcome lib env i)) = 200 \<or> status (fst (outcome lib env i)) = 404"
  shows "process_try lib env (activation_url i) (initial_result i) = Inr (outcome lib env i)"
  using assms
  by (cases "process_try lib env (activation_url i) (initial_result i)")
     (auto simp: outcome_def)

text \<open>
  Claim C5. For every identifier and whatever the network and the file system do,
  \<^verbatim>\<open>process_activation_id\<close> returns a result and raises nothing. The result carries the
  zero-padded identifier, and whenever the body of its \<^verbatim>\<open>try\<close> block raises, during the
  request or anywhere later, the result has status 0 and payload \<^verbatim>\<open>Error\<close>.
\<close>

theorem process_activation_id_catches:
  "\<exists>r saved. process_activation_id lib env i = Inr (r, saved) \<and> id' r = fmt06 i \<and>
     (\<forall>e. process_try lib env (activation_url i) (initial_result i) = Inl e \<longrightarrow>
          r = \<lparr>id' = fmt06 i, secret_code = ''Error'', status = 0\<rparr> \<and> saved = None)"
proof -
  obtain r saved where o: "outcome lib env i = (r, saved)" by (cases "outcome lib env i")
  have "id' r = fmt06 i" using outcome_id[of lib env i] o by simp
  moreover have "process_activation_id lib env i = Inr (r, saved)"
    by (simp add: process_activation_id_outcome o)
  moreover have "\<forall>e. process_try lib env (activation_url i) (initial_result i) = Inl e \<longrightarrow>
          r = \<lparr>id' = fmt06 i, secret_code = ''Error'', status = 0\<rparr> \<and> saved = None"
    using o by (auto dest: outcome_raised)
  ultimately show ?thesis by blast
qed

lemma fmt06_7: "fmt06 7 = ''000007''"
  by code_simp

theorem process_activation_id_catches_witness:
  "process_try demo_lib (page_env (Inl RequestException)) (activation_url 7) (initial_result 7)
     = Inl RequestException \<and>
   process_activation_id demo_lib (page_env (Inl RequestException)) 7
     = Inr (\<lparr>id' = ''000007'', secret_code = ''Error'', status = 0\<rparr>, None)"
proof -
  have t: "process_try demo_lib (page_env (Inl RequestException)) (activation_url 7)
      (initial_result 7) = Inl RequestException"
    by (simp add: process_try_def page_env_def)
  from process_activation_id_catches[of demo_lib "page_env (Inl RequestException)" 7]
  obtain r saved where
    "process_activation_id demo_lib (page_env (Inl RequestException)) 7 = Inr (r, saved)"
    "r = \<lparr>id' = fmt06 7, secret_code = ''Error'', status = 0\<rparr> \<and> saved = None"
    using t by blast
  then show ?thesis using t by (simp add: fmt06_7)
qed

text \<open>
  \<^verbatim>\<open>download_asset\<close> returns the URL it was given when its \<^verbatim>\<open>try\<close> block raises, and the
  local path when the request answers with a status other than 200.
\<close>

lemma download_asset_raised:
  "download_asset_try lib env url = Inl e \<Longrightarrow> download_asset lib env url = url"
  by (simp add: download_asset_def)

lemma download_asset_status_not_200:
  assumes "urlparse_path lib url = Inr path"
    and "\<not> path_exists env (path_join lib (ASSETS_DIR lib) (asset_save_name lib path url))"
    and "asset_get env url = Inr code" and "code \<noteq> 200"
  shows "download_asset lib env url = ''assets/'' @ asset_save_name lib path url"
  using assms by (simp add: download_asset_def download_asset_try_def Let_def)

text \<open>
  Claim C6, as amended. When the page request answers 200 and the page has no clipboard
  container with a non-empty input value, the result keeps status 200 and the payload
  \<^verbatim>\<open>Not Found\<close>, provided the rest of the \<^verbatim>\<open>try\<close> block raises nothing: either the page has
  no instruction card, or rewriting the references of the card and saving the document succeed.
\<close>

theorem no_target_keeps_status:
  assumes "page env = Inr resp" and "status_code resp = 200" and "soup resp = Inr doc"
    and "input_value doc = None"
    and "instruction_card doc = None \<or>
         (\<exists>frag saved. instruction_card doc = Some frag \<and>
            save_fragment lib env (activation_url i) frag = Inr saved)"
  shows "\<exists>saved. process_activation_id lib env i =
           Inr (\<lparr>id' = fmt06 i, secret_code = ''Not Found'', status = 200\<rparr>, saved)"
  using assms
  by (auto simp: process_activation_id_def process_try_def Let_def initial_result_def
      parse_secret_code_input_value)

theorem no_target_keeps_status_witness:
  "page (page_env (Inr (page_of 200 None))) = Inr (page_of 200 None) \<and>
   status_code (page_of 200 None) = 200 \<and>
   soup (page_of 200 None) = Inr \<lparr>clipboard_div = None, instruction_card = None\<rparr> \<and>
   input_value \<lparr>clipboard_div = None, instruction_card = None\<rparr> = None \<and>
   instruction_card \<lparr>clipboard_div = None, instruction_card = None\<rparr> = None \<and>
   (\<exists>saved. process_activation_id demo_lib (page_env (Inr (page_of 200 None))) 7 =
      Inr (\<lparr>id' = ''000007'', secret_code = ''Not Found'', status = 200\<rparr>, saved))"
proof -
  have 1: "page (page_env (Inr (page_of 200 None))) = Inr (page_of 200 None)"
    by (simp add: page_env_def)
  have 2: "status_code (page_of 200 None) = 200" by (simp add: page_of_def)
  have 3: "soup (page_of 200 None) = Inr \<lparr>clipboard_div = None, instruction_card = None\<rparr>"
    by (simp add: page_of_def)
  have 4: "input_value \<lparr>clipboard_div = None, instruction_card = None\<rparr> = None"
    by (simp add: input_value_def)
  have 5: "instruction_card \<lparr>clipboard_div = None, instruction_card = None\<rparr> = None \<or>
         (\<exists>frag saved. instruction_card \<lparr>clipboard_div = None, instruction_card = None\<rparr> = Some frag \<and>
            save_fragment demo_lib (page_env (Inr (page_of 200 None))) (activation_url 7) frag = Inr saved)"
    by simp
  from no_target_keeps_status[OF 1 2 3 4 5] 1 2 3 4 show ?thesis
    by (simp add: fmt06_7)
qed

text \<open>
  Claim C6 fails as stated: a page that answers 200 and has no clipboard container, but whose
  document cannot be saved, ends with status 0 and payload \<^verbatim>\<open>Error\<close>.
\<close>

theorem no_target_status_lost:
  "page unwritable_env =
     Inr (card_page \<lparr>frag_links = [], frag_imgs = [], frag_anchors = []\<rparr>) \<and>
   status_code (card_page \<lparr>frag_links = [], frag_imgs = [], frag_anchors = []\<rparr>) = 200 \<and>
   soup (card_page \<lparr>frag_links = [], frag_imgs = [], frag_anchors = []\<rparr>) =
     Inr \<lparr>clipboard_div = None,
          instruction_card = Some \<lparr>frag_links = [], frag_imgs = [], frag_anchors = []\<rparr>\<rparr> \<and>
   input_value \<lparr>clipboard_div = None,
          instruction_card = Some \<lparr>frag_links = [], frag_imgs = [], frag_anchors = []\<rparr>\<rparr> = None \<and>
   process_activation_id demo_lib unwritable_env 7 =
     Inr (\<lparr>id' = ''000007'', secret_code = ''Error'', status = 0\<rparr>, None)"
  by (simp add: unwritable_env_def page_env_def card_page_def input_value_def
      process_activation_id_def process_try_def save_fragment_def initial_result_def fmt06_7)

text \<open>
  Claim C7 at a failing input. The request for the image answers 404, so nothing is
  downloaded; \<^verbatim>\<open>download_asset\<close> still returns the local path, and the saved document refers
  to that path and no longer to the remote URL.
\<close>

theorem failed_asset_reference_rewritten:
  "asset_get missing_asset_env logo_url = Inr 404 \<and>
   download_asset demo_lib missing_asset_env logo_url = ''assets/logo_01234567.png'' \<and>
   process_activation_id demo_lib missing_asset_env 7 =
     Inr (\<lparr>id' = ''000007'', secret_code = ''Not Found'', status = 200\<rparr>,
          Some \<lparr>frag_links = [], frag_imgs = [''assets/logo_01234567.png''], frag_anchors = []\<rparr>)"
proof -
  have a: "asset_get missing_asset_env logo_url = Inr 404"
    by (simp add: missing_asset_env_def)
  have n: "asset_save_name demo_lib (demo_url_path logo_url) logo_url = ''logo_01234567.png''"
    by (simp add: asset_save_name_def demo_lib_def demo_url_path_def demo_splitext_def logo_url_def)
  have d: "download_asset demo_lib missing_asset_env logo_url = ''assets/logo_01234567.png''"
    using download_asset_status_not_200[of demo_lib logo_url "demo_url_path logo_url" missing_asset_env 404]
    by (simp add: n a) (simp add: demo_lib_def missing_asset_env_def page_env_def)
  have u: "urljoin demo_lib (activation_url 7) logo_url = Inr logo_url"
    by (simp add: demo_lib_def)
  have h: "html_write missing_asset_env = Inr ()"
    by (simp add: missing_asset_env_def page_env_def)
  have sf: "save_fragment demo_lib missing_asset_env (activation_url 7)
       \<lparr>frag_links = [], frag_imgs = [logo_url], frag_anchors = []\<rparr> =
     Inr \<lparr>frag_links = [], frag_imgs = [''assets/logo_01234567.png''], frag_anchors = []\<rparr>"
    by (simp add: save_fragment_def u h d)
  have pg: "page missing_asset_env =
      Inr (card_page \<lparr>frag_links = [], frag_imgs = [logo_url], frag_anchors = []\<rparr>)"
    by (simp add: missing_asset_env_def page_env_def)
  have p: "process_activation_id demo_lib missing_asset_env 7 =
     Inr (\<lparr>id' = ''000007'', secret_code = ''Not Found'', status = 200\<rparr>,
          Some \<lparr>frag_links = [], frag_imgs = [''assets/logo_01234567.png''], frag_anchors = []\<rparr>)"
    by (simp add: process_activation_id_def process_try_def pg card_page_def sf
        initial_result_def fmt06_7 parse_secret_code_def)
  show ?thesis using a d p by simp
qed

section \<open>Properties of one round\<close>

lemma as_completed_pick:
  "pending \<noteq> [] \<Longrightarrow>
   as_completed (p # picks) pending =
     pending ! (p mod length pending) #
     as_completed picks
       (take (p mod length pending) pending @ drop (Suc (p mod length pending)) pending)"
  by (cases pending) (simp_all add: Let_def)

lemma as_completed_map: "as_completed picks (map f xs) = map f (as_completed picks xs)"
proof (induction picks arbitrary: xs)
  case Nil
  show ?case by (cases xs) simp_all
next
  case (Cons p picks)
  show ?case
  proof (cases "xs = []")
    case True
    then show ?thesis by simp
  next
    case False
    then have k: "p mod length xs < length xs" by simp
    have "as_completed (p # picks) (map f xs) =
        map f xs ! (p mod length xs) #
        as_completed picks
          (map f (take (p mod length xs) xs @ drop (Suc (p mod length xs)) xs))"
      using False by (simp add: as_completed_pick take_map drop_map)
    also have "\<dots> = map f (as_completed (p # picks) xs)"
      using False k Cons.IH[of "take (p mod length xs) xs @ drop (Suc (p mod length xs)) xs"]
      by (simp add: as_completed_pick)
    finally show ?thesis .
  qed
qed

lemma mset_as_completed: "mset (as_completed picks xs) = mset xs"
proof (induction picks arbitrary: xs)
  case Nil
  show ?case by (cases xs) simp_all
next
  case (Cons p picks)
  show ?case
  proof (cases "xs = []")
    case True
    then show ?thesis by simp
  next
    case False
    let ?k = "p mod length xs"
    from False have k: "?k < length xs" by simp
    have "mset (as_completed (p # picks) xs) =
        {#xs ! ?k#} + mset (take ?k xs @ drop (Suc ?k) xs)"
      using False by (simp add: as_completed_pick Cons.IH)
    also have "\<dots> = mset (take ?k xs @ xs ! ?k # drop (Suc ?k) xs)" by simp
    also have "\<dots> = mset xs" using id_take_nth_drop[OF k] by simp
    finally show ?thesis .
  qed
qed

lemma set_as_completed: "set (as_completed picks xs) = set xs"
  by (metis mset_as_completed set_mset_mset)

lemma length_filter_as_completed:
  "length (filter P (as_completed picks xs)) = length (filter P xs)"
proof -
  have "mset (filter P (as_completed picks xs)) = mset (filter P xs)"
    by (simp only: mset_filter mset_as_completed)
  then show ?thesis by (metis size_mset)
qed

lemma submit_all_outcome:
  "submit_all lib w it ids =
     map (\<lambda>(k, i). Inr (outcome lib (fetch w it k i) i)) (enumerate 0 ids)"
  by (simp add: submit_all_def process_activation_id_outcome)

lemma collect_outcomes:
  "collect (map (\<lambda>(k, i). Inr (outcome lib (fetch w it k i) i)) kis) written retry_ids =
     (None, written @ map (attempt_row lib w it) (filter (settles lib w it) kis),
      retry_ids @ map snd (filter (Not \<circ> settles lib w it) kis))"
proof (induction kis arbitrary: written retry_ids)
  case Nil
  then show ?case by simp
next
  case (Cons ki kis)
  obtain k i where ki: "ki = (k, i)" by (cases ki)
  obtain data saved where o: "outcome lib (fetch w it k i) i = (data, saved)"
    by (cases "outcome lib (fetch w it k i) i")
  have idd: "id' data = fmt06 i" using outcome_id[of lib "fetch w it k i" i] o by simp
  show ?case
  proof (cases "status data = 200 \<or> status data = 404")
    case True
    then have "settles lib w it (k, i)" by (simp add: settles_def attempt_status_def o)
    then show ?thesis using True Cons ki o
      by (simp add: attempt_row_def row_of_def)
  next
    case False
    then have "\<not> settles lib w it (k, i)" by (simp add: settles_def attempt_status_def o)
    then show ?thesis using False Cons ki o
      by (simp add: idd py_int_fmt06)
  qed
qed

lemma run_round_eq:
  "run_round lib w it ids =
     (None,
      map (attempt_row lib w it)
        (filter (settles lib w it) (as_completed (completion w it) (enumerate 0 ids))),
      map snd
        (filter (Not \<circ> settles lib w it) (as_completed (completion w it) (enumerate 0 ids))))"
  by (simp add: run_round_def submit_all_outcome as_completed_map collect_outcomes)

lemma settled_id_attempt_row: "settled_id (attempt_row lib w it (k, i)) = fmt06 i"
  by (simp add: settled_id_def attempt_row_def row_of_def outcome_id)

lemma map_settled_id_attempt_row:
  "map settled_id (map (attempt_row lib w it) kis) = map fmt06 (map snd kis)"
  by (induction kis) (auto simp: settled_id_attempt_row)

lemma map_snd_enumerate: "map snd (enumerate n xs) = xs"
  by (induction xs arbitrary: n) simp_all

lemma length_filter_disj:
  "(\<And>x. \<not> (P x \<and> Q x)) \<Longrightarrow>
   length (filter (\<lambda>x. P x \<or> Q x) xs) = length (filter P xs) + length (filter Q xs)"
  by (induction xs) auto

lemma mset_map_filter_split:
  "mset (map g (filter P xs)) + mset (map g (filter (Not \<circ> P) xs)) = mset (map g xs)"
  by (induction xs) auto

lemma filter_map_disjoint:
  assumes "distinct (map g xs)"
  shows "set (map g (filter P xs)) \<inter> set (map g (filter (Not \<circ> P) xs)) = {}"
proof -
  have inj: "inj_on g (set xs)" using assms by (simp add: distinct_map)
  have "g ` {x \<in> set xs. P x} \<inter> g ` {x \<in> set xs. \<not> P x} = g ` ({x \<in> set xs. P x} \<inter> {x \<in> set xs. \<not> P x})"
    by (rule inj_on_image_Int[OF inj, symmetric]) auto
  then show ?thesis by auto
qed

text \<open>
  Claim C3, as amended. A round never raises. The number of rows it writes is the number of
  attempts answered 200 plus the number answered 404, and the length of its retry list is
  the number of attempts with any other status. Every identifier of the input, counted with
  its multiplicity, is settled or kept for retry; when the identifiers of the input are
  distinct, no identifier is both settled and kept for retry.
\<close>

theorem round_partition:
  assumes "run_round lib w it ids = (e, written, retry_ids)"
  shows "e = None \<and>
    length written =
      count_status lib w it ids (\<lambda>s. s = 200) + count_status lib w it ids (\<lambda>s. s = 404) \<and>
    length retry_ids = count_status lib w it ids (\<lambda>s. s \<noteq> 200 \<and> s \<noteq> 404) \<and>
    (\<exists>settled. map settled_id written = map fmt06 settled \<and>
       mset settled + mset retry_ids = mset ids \<and>
       (distinct ids \<longrightarrow> set settled \<inter> set retry_ids = {}))"
proof -
  let ?kis = "as_completed (completion w it) (enumerate 0 ids)"
  let ?T = "settles lib w it"
  from assms have e: "e = None"
    and wr: "written = map (attempt_row lib w it) (filter ?T ?kis)"
    and re: "retry_ids = map snd (filter (Not \<circ> ?T) ?kis)"
    by (simp_all add: run_round_eq)
  have T: "?T = (\<lambda>x. (case x of (k, i) \<Rightarrow> attempt_status lib w it k i = 200) \<or>
                     (case x of (k, i) \<Rightarrow> attempt_status lib w it k i = 404))"
    by (auto simp: settles_def fun_eq_iff)
  have NT: "Not \<circ> ?T = (\<lambda>(k, i). attempt_status lib w it k i \<noteq> 200 \<and>
                                    attempt_status lib w it k i \<noteq> 404)"
    by (auto simp: settles_def fun_eq_iff)
  have "length written = length (filter ?T (enumerate 0 ids))"
    by (simp add: wr length_filter_as_completed)
  also have "\<dots> = length (filter (\<lambda>x. (case x of (k, i) \<Rightarrow> attempt_status lib w it k i = 200) \<or>
                                  (case x of (k, i) \<Rightarrow> attempt_status lib w it k i = 404)) (enumerate 0 ids))"
    by (simp only: T)
  also have "\<dots> = count_status lib w it ids (\<lambda>s. s = 200) + count_status lib w it ids (\<lambda>s. s = 404)"
    unfolding count_status_def by (rule length_filter_disj) auto
  finally have l1: "length written =
      count_status lib w it ids (\<lambda>s. s = 200) + count_status lib w it ids (\<lambda>s. s = 404)" .
  have "length retry_ids = length (filter (Not \<circ> ?T) (enumerate 0 ids))"
    by (simp add: re length_filter_as_completed)
  also have "\<dots> = count_status lib w it ids (\<lambda>s. s \<noteq> 200 \<and> s \<noteq> 404)"
    by (simp only: count_status_def NT)
  finally have l2: "length retry_ids = count_status lib w it ids (\<lambda>s. s \<noteq> 200 \<and> s \<noteq> 404)" .
  let ?settled = "map snd (filter ?T ?kis)"
  have m1: "map settled_id written = map fmt06 ?settled"
    by (simp only: wr map_settled_id_attempt_row)
  have sn: "mset (map snd ?kis) = mset ids"
    by (metis mset_as_completed mset_map map_snd_enumerate)
  have m2: "mset ?settled + mset retry_ids = mset ids"
    unfolding re using mset_map_filter_split[of snd ?T ?kis] sn by simp
  have m3: "distinct ids \<longrightarrow> set ?settled \<inter> set retry_ids = {}"
  proof
    assume "distinct ids"
    then have "distinct (map snd ?kis)" using sn by (metis mset_eq_imp_distinct_iff)
    then show "set ?settled \<inter> set retry_ids = {}"
      unfolding re by (rule filter_map_disjoint)
  qed
  from e l1 l2 m1 m2 m3 show ?thesis by blast
qed


lemma in_set_enumerate0: "(k, i) \<in> set (enumerate 0 ids) \<Longrightarrow> k < length ids \<and> ids ! k = i"
  by (simp add: in_set_enumerate_eq)

lemma written_row_origin:
  assumes "run_round lib w it ids = (e, written, retry_ids)" and "r \<in> set written"
  shows "\<exists>k i data saved. k < length ids \<and> ids ! k = i \<and>
           process_try lib (fetch w it k i) (activation_url i) (initial_result i)
             = Inr (data, saved) \<and>
           r = [S (fmt06 i), S (secret_code data), I (status data)] \<and>
           (status data = 200 \<or> status data = 404) \<and>
           (secret_code data = ''Not Found'' \<or>
            (\<exists>resp doc. page (fetch w it k i) = Inr resp \<and> status_code resp = 200 \<and>
               soup resp = Inr doc \<and> input_value doc = Some (secret_code data)))"
proof -
  let ?kis = "as_completed (completion w it) (enumerate 0 ids)"
  from assms have "r \<in> set (map (attempt_row lib w it) (filter (settles lib w it) ?kis))"
    by (simp add: run_round_eq)
  then obtain k i where ki: "(k, i) \<in> set ?kis" and T: "settles lib w it (k, i)"
    and r: "r = attempt_row lib w it (k, i)" by auto
  from ki have pos: "k < length ids \<and> ids ! k = i"
    by (simp add: set_as_completed in_set_enumerate0)
  obtain data saved where o: "outcome lib (fetch w it k i) i = (data, saved)"
    by (cases "outcome lib (fetch w it k i) i")
  from T o have st: "status data = 200 \<or> status data = 404"
    by (simp add: settles_def attempt_status_def)
  then have t: "process_try lib (fetch w it k i) (activation_url i) (initial_result i)
      = Inr (data, saved)"
    using outcome_terminal_not_raised[of lib "fetch w it k i" i] o by simp
  from process_try_Inr[OF t] obtain resp where
    p: "page (fetch w it k i) = Inr resp" "status data = status_code resp"
       "id' data = id' (initial_result i)"
    and c: "if status_code resp = 200
            then \<exists>doc. soup resp = Inr doc \<and>
                   secret_code data =
                     (case input_value doc of None \<Rightarrow> secret_code (initial_result i) | Some v \<Rightarrow> v)
            else secret_code data = secret_code (initial_result i) \<and> saved = None"
    by blast
  have pay: "secret_code data = ''Not Found'' \<or>
            (\<exists>resp doc. page (fetch w it k i) = Inr resp \<and> status_code resp = 200 \<and>
               soup resp = Inr doc \<and> input_value doc = Some (secret_code data))"
  proof (cases "status_code resp = 200")
    case True
    with c obtain doc where d: "soup resp = Inr doc"
      "secret_code data =
         (case input_value doc of None \<Rightarrow> secret_code (initial_result i) | Some v \<Rightarrow> v)"
      by auto
    show ?thesis
    proof (cases "input_value doc")
      case None
      with d show ?thesis by (simp add: initial_result_def)
    next
      case (Some v)
      with d p True show ?thesis by auto
    qed
  next
    case False
    with c show ?thesis by (simp add: initial_result_def)
  qed
  have "r = [S (fmt06 i), S (secret_code data), I (status data)]"
    using r o p(3) by (simp add: attempt_row_def row_of_def initial_result_def)
  with pos t st pay show ?thesis by blast
qed

lemma rows_of_append_rows: "rows_of (append_rows st rows) = rows_of st @ rows"
  by (simp add: rows_of_def append_rows_def split: option.splits)

lemma append_rows_frame:
  "zip_file (append_rows st rows) = zip_file st" "output_csv (append_rows st rows) \<noteq> None"
  by (simp_all add: append_rows_def)

lemma round_accounts:
  assumes "run_round lib w it ids = (e, written, retry_ids)"
  shows "mset (map settled_id written) + mset (map fmt06 retry_ids) = mset (map fmt06 ids)"
proof -
  let ?kis = "as_completed (completion w it) (enumerate 0 ids)"
  from assms have wr: "written = map (attempt_row lib w it) (filter (settles lib w it) ?kis)"
    and re: "retry_ids = map snd (filter (Not \<circ> settles lib w it) ?kis)"
    by (simp_all add: run_round_eq)
  have sn: "mset (map snd ?kis) = mset ids"
    by (metis mset_as_completed mset_map map_snd_enumerate)
  have A: "map settled_id written = map (fmt06 \<circ> snd) (filter (settles lib w it) ?kis)"
    unfolding wr by (simp add: settled_id_attempt_row)
  have B: "map fmt06 retry_ids = map (fmt06 \<circ> snd) (filter (Not \<circ> settles lib w it) ?kis)"
    unfolding re by simp
  have "mset (map settled_id written) + mset (map fmt06 retry_ids) =
      mset (map (fmt06 \<circ> snd) (filter (settles lib w it) ?kis)) +
      mset (map (fmt06 \<circ> snd) (filter (Not \<circ> settles lib w it) ?kis))"
    by (simp only: A B)
  also have "\<dots> = mset (map (fmt06 \<circ> snd) ?kis)" by (rule mset_map_filter_split)
  also have "\<dots> = image_mset fmt06 (mset (map snd ?kis))"
    by (metis map_map mset_map)
  also have "\<dots> = mset (map fmt06 ids)" using sn by simp
  finally show ?thesis .
qed

lemma retry_loop_returns:
  assumes "retry_loop lib w it ids st = Some y"
  shows "fst y = None \<and> zip_file (snd y) = zip_file st \<and> (ids = [] \<longrightarrow> snd y = st) \<and>
     (ids \<noteq> [] \<longrightarrow> output_csv (snd y) \<noteq> None) \<and>
     (\<exists>new. rows_of (snd y) = rows_of st @ new \<and>
        mset (map settled_id new) = mset (map fmt06 ids) \<and>
        (\<forall>r \<in> set new. \<exists>it' ids' e' written retry_ids.
            run_round lib w it' ids' = (e', written, retry_ids) \<and> r \<in> set written))"
proof (induction rule: retry_loop.raw_induct[OF _ assms])
  case (1 f lib w it ids st y)
  show ?case
  proof (cases "ids = []")
    case True
    with 1(2) have "y = (None, st)" by simp
    with True show ?thesis by simp
  next
    case False
    obtain written retry_ids where rr: "run_round lib w it ids = (None, written, retry_ids)"
      by (simp add: run_round_eq)
    let ?st1 = "append_rows st written"
    have "\<exists>it1. f lib w it1 retry_ids ?st1 = Some y"
      using 1(2) False rr by (auto split: if_splits)
    then obtain it1 where "f lib w it1 retry_ids ?st1 = Some y" ..
    from 1(1)[OF this] obtain new where
      a: "fst y = None" "zip_file (snd y) = zip_file ?st1" "retry_ids = [] \<longrightarrow> snd y = ?st1"
         "retry_ids \<noteq> [] \<longrightarrow> output_csv (snd y) \<noteq> None"
      and n: "rows_of (snd y) = rows_of ?st1 @ new"
         "mset (map settled_id new) = mset (map fmt06 retry_ids)"
         "\<forall>r \<in> set new. \<exists>it' ids' e' written retry_ids.
            run_round lib w it' ids' = (e', written, retry_ids) \<and> r \<in> set written"
      by blast
    have o: "output_csv (snd y) \<noteq> None"
      using a(3,4) append_rows_frame(2)[of st written] by (cases "retry_ids = []") auto
    have r1: "rows_of (snd y) = rows_of st @ (written @ new)"
      by (simp add: n(1) rows_of_append_rows)
    have r2: "mset (map settled_id (written @ new)) = mset (map fmt06 ids)"
      using round_accounts[OF rr] n(2) by simp
    have r3: "\<forall>r \<in> set (written @ new). \<exists>it' ids' e' written retry_ids.
            run_round lib w it' ids' = (e', written, retry_ids) \<and> r \<in> set written"
    proof
      fix r assume "r \<in> set (written @ new)"
      then consider "r \<in> set written" | "r \<in> set new" by auto
      then show "\<exists>it' ids' e' written retry_ids.
            run_round lib w it' ids' = (e', written, retry_ids) \<and> r \<in> set written"
      proof cases
        case 1
        with rr show ?thesis by blast
      next
        case 2
        with n(3) show ?thesis by blast
      qed
    qed
    from a(1,2) o False r1 r2 r3 show ?thesis
      by (simp only: append_rows_frame) blast
  qed
qed

lemma scenario_round_1:
  "run_round demo_lib scenario 1 [1, 2, 3] =
     (None, [[S ''000002'', S ''Not Found'', I 404], [S ''000001'', S ''ABC123'', I 200]], [3])"
  by code_simp

lemma scenario_counts:
  "count_status demo_lib scenario 1 [1, 2, 3] (\<lambda>s. s = 200) = 1"
  "count_status demo_lib scenario 1 [1, 2, 3] (\<lambda>s. s = 404) = 1"
  "count_status demo_lib scenario 1 [1, 2, 3] (\<lambda>s. s \<noteq> 200 \<and> s \<noteq> 404) = 1"
  by code_simp+

theorem round_partition_witness:
  "run_round demo_lib scenario 1 [1, 2, 3] =
     (None, [[S ''000002'', S ''Not Found'', I 404], [S ''000001'', S ''ABC123'', I 200]], [3]) \<and>
   distinct [1, 2, 3 :: int] \<and>
   length [[S ''000002'', S ''Not Found'', I 404], [S ''000001'', S ''ABC123'', I 200]] =
     count_status demo_lib scenario 1 [1, 2, 3] (\<lambda>s. s = 200) +
     count_status demo_lib scenario 1 [1, 2, 3] (\<lambda>s. s = 404) \<and>
   length [3 :: int] = count_status demo_lib scenario 1 [1, 2, 3] (\<lambda>s. s \<noteq> 200 \<and> s \<noteq> 404) \<and>
   (\<exists>settled.
      map settled_id [[S ''000002'', S ''Not Found'', I 404], [S ''000001'', S ''ABC123'', I 200]]
        = map fmt06 settled \<and>
      mset settled + mset [3] = mset [1, 2, 3] \<and> set settled \<inter> set [3] = {})"
proof -
  have d: "distinct [1, 2, 3 :: int]" by simp
  from round_partition[OF scenario_round_1] d show ?thesis
    using scenario_round_1 by blast
qed

text \<open>
  Claim C3 fails as stated: the input of a round is a list and may name an identifier twice.
  When the two requests for identifier 1 are answered 200 and 429, the identifier is both
  settled and kept for retry.
\<close>

theorem round_overlap:
  "run_round demo_lib twin_world 1 [1, 1] =
     (None, [[S ''000001'', S ''Not Found'', I 200]], [1]) \<and>
   attempt_status demo_lib twin_world 1 0 1 = 200 \<and>
   attempt_status demo_lib twin_world 1 1 1 = 429 \<and>
   settled_id [S ''000001'', S ''Not Found'', I 200] = fmt06 1 \<and>
   set (map settled_id [[S ''000001'', S ''Not Found'', I 200]]) \<inter> set (map fmt06 [1])
     = {''000001''}"
proof -
  have "run_round demo_lib twin_world 1 [1, 1] =
     (None, [[S ''000001'', S ''Not Found'', I 200]], [1]) \<and>
   attempt_status demo_lib twin_world 1 0 1 = 200 \<and>
   attempt_status demo_lib twin_world 1 1 1 = 429 \<and>
   settled_id [S ''000001'', S ''Not Found'', I 200] = fmt06 1"
    by code_simp
  moreover have "fmt06 1 = ''000001''" by code_simp
  ultimately show ?thesis by simp
qed

section \<open>Properties of the retry loop\<close>

lemma pending_after_Nil: "pending_after lib w n it [] = []"
  by (cases n) simp_all

lemma retry_loop_Nil: "retry_loop lib w it [] st = Some (None, st)"
  by (subst retry_loop.simps) simp

lemma retry_loop_step:
  assumes "ids \<noteq> []" and "run_round lib w it ids = (None, written, retry_ids)"
  shows "retry_loop lib w it ids st =
     retry_loop lib w (if retry_ids \<noteq> [] then it + 1 else it) retry_ids (append_rows st written)"
  using assms by (subst retry_loop.simps) simp

lemma run_round_None: "\<exists>written retry_ids. run_round lib w it ids = (None, written, retry_ids)"
  by (simp add: run_round_eq)

lemma retry_loop_returns_if:
  "pending_after lib w n it ids = [] \<Longrightarrow> \<exists>st'. retry_loop lib w it ids st = Some (None, st')"
proof (induction n arbitrary: it ids st)
  case 0
  then show ?case by (simp add: retry_loop_Nil)
next
  case (Suc n)
  show ?case
  proof (cases "ids = []")
    case True
    then show ?thesis by (simp add: retry_loop_Nil)
  next
    case False
    obtain written retry_ids where rr: "run_round lib w it ids = (None, written, retry_ids)"
      using run_round_None by blast
    from Suc.prems False rr have p: "pending_after lib w n (it + 1) retry_ids = []" by simp
    show ?thesis
    proof (cases "retry_ids = []")
      case True
      then show ?thesis using retry_loop_step[OF False rr] by (simp add: retry_loop_Nil)
    next
      case False2: False
      from Suc.IH[OF p] obtain st' where
        "retry_loop lib w (it + 1) retry_ids (append_rows st written) = Some (None, st')" ..
      then show ?thesis using retry_loop_step[OF False rr] False2 by simp
    qed
  qed
qed

lemma retry_loop_returns_only_if:
  assumes "retry_loop lib w it ids st = Some y"
  shows "\<exists>n. pending_after lib w n it ids = []"
proof (induction rule: retry_loop.raw_induct[OF _ assms])
  case (1 f lib w it ids st y)
  show ?case
  proof (cases "ids = []")
    case True
    then have "pending_after lib w 0 it ids = []" by simp
    then show ?thesis ..
  next
    case False
    obtain written retry_ids where rr: "run_round lib w it ids = (None, written, retry_ids)"
      using run_round_None by blast
    show ?thesis
    proof (cases "retry_ids = []")
      case True
      then have "pending_after lib w (Suc 0) it ids = []" using False rr by simp
      then show ?thesis ..
    next
      case False2: False
      then have "f lib w (it + 1) retry_ids (append_rows st written) = Some y"
        using 1(2) False rr by simp
      from 1(1)[OF this] obtain n where "pending_after lib w n (it + 1) retry_ids = []" ..
      then have "pending_after lib w (Suc n) it ids = []" using False rr by simp
      then show ?thesis ..
    qed
  qed
qed

lemma transient_stays:
  assumes "i \<in> set ids"
    and "\<forall>it k. attempt_status lib w it k i \<noteq> 200 \<and> attempt_status lib w it k i \<noteq> 404"
    and "run_round lib w it ids = (e, written, retry_ids)"
  shows "i \<in> set retry_ids"
proof -
  let ?kis = "as_completed (completion w it) (enumerate 0 ids)"
  from assms(1) obtain k where "k < length ids" "ids ! k = i" by (auto simp: in_set_conv_nth)
  then have "(k, i) \<in> set (enumerate 0 ids)" by (simp add: in_set_enumerate_eq)
  then have "(k, i) \<in> set ?kis" by (simp add: set_as_completed)
  moreover have "\<not> settles lib w it (k, i)" using assms(2) by (simp add: settles_def)
  ultimately have "(k, i) \<in> set (filter (Not \<circ> settles lib w it) ?kis)" by simp
  then have "i \<in> set (map snd (filter (Not \<circ> settles lib w it) ?kis))" by force
  moreover have "retry_ids = map snd (filter (Not \<circ> settles lib w it) ?kis)"
    using assms(3) by (simp add: run_round_eq)
  ultimately show ?thesis by simp
qed

lemma transient_pending:
  assumes "\<forall>it k. attempt_status lib w it k i \<noteq> 200 \<and> attempt_status lib w it k i \<noteq> 404"
  shows "i \<in> set ids \<Longrightarrow> i \<in> set (pending_after lib w n it ids)"
proof (induction n arbitrary: it ids)
  case 0
  then show ?case by simp
next
  case (Suc n)
  then have ne: "ids \<noteq> []" by auto
  obtain e written retry_ids where rr: "run_round lib w it ids = (e, written, retry_ids)"
    by (cases "run_round lib w it ids") auto
  from transient_stays[OF Suc.prems assms rr] have "i \<in> set retry_ids" .
  from Suc.IH[OF this] show ?case using ne rr by simp
qed

lemma retry_loop_diverges:
  assumes "i \<in> set ids"
    and "\<forall>it k. attempt_status lib w it k i \<noteq> 200 \<and> attempt_status lib w it k i \<noteq> 404"
  shows "retry_loop lib w it ids st = None"
proof (rule ccontr)
  assume "retry_loop lib w it ids st \<noteq> None"
  then obtain y where "retry_loop lib w it ids st = Some y" by auto
  from retry_loop_returns_only_if[OF this] obtain n where "pending_after lib w n it ids = []" ..
  moreover have "i \<in> set (pending_after lib w n it ids)"
    using transient_pending[OF assms(2) assms(1)] .
  ultimately show False by simp
qed

lemma main_diverges:
  assumes "get_ids_from_csv (input_csv w) = Inr ids" and "i \<in> set ids"
    and "\<forall>it k. attempt_status lib w it k i \<noteq> 200 \<and> attempt_status lib w it k i \<noteq> 404"
  shows "main lib w st = None"
  using assms(1) retry_loop_diverges[OF assms(2,3)]
  by (simp add: main_def Let_def)

text \<open>
  Claim C4. The loop returns exactly when, after some number of iterations, no identifier is
  pending: it stops after the first round whose retry list is empty (or at once, when the
  input is empty), and nothing else stops it. There is no bound on the number of rounds: when
  some identifier of the list is answered with a status other than 200 and 404 at every
  attempt, the loop does not return, and \<^verbatim>\<open>main\<close> does not return either, so the archive
  step is never reached.
\<close>

theorem retry_loop_unbounded:
  "(retry_loop lib w it ids st \<noteq> None \<longleftrightarrow> (\<exists>n. pending_after lib w n it ids = [])) \<and>
   (i \<in> set ids \<and>
    (\<forall>it' k. attempt_status lib w it' k i \<noteq> 200 \<and> attempt_status lib w it' k i \<noteq> 404) \<longrightarrow>
      retry_loop lib w it ids st = None \<and>
      (get_ids_from_csv (input_csv w) = Inr ids \<longrightarrow> main lib w st = None))"
proof -
  have a: "retry_loop lib w it ids st \<noteq> None \<longleftrightarrow> (\<exists>n. pending_after lib w n it ids = [])"
    using retry_loop_returns_if[of lib w _ it ids st] retry_loop_returns_only_if[of lib w it ids st]
    by (metis option.distinct(1) option.exhaust)
  show ?thesis using a retry_loop_diverges[of i ids lib w it st] main_diverges[of w ids i lib st]
    by blast
qed

lemma stuck_ids: "get_ids_from_csv (input_csv stuck_world) = Inr [1, 3]"
  by code_simp

lemma stuck_status: "attempt_status demo_lib stuck_world it k 3 = 429"
  by (simp add: attempt_status_def outcome_def stuck_world_def page_env_def page_of_def
      process_try_def initial_result_def)

theorem retry_loop_unbounded_witness:
  "(3::int) \<in> set [1, 3] \<and>
   (\<forall>it' k. attempt_status demo_lib stuck_world it' k 3 \<noteq> 200 \<and>
            attempt_status demo_lib stuck_world it' k 3 \<noteq> 404) \<and>
   get_ids_from_csv (input_csv stuck_world) = Inr [1, 3] \<and>
   retry_loop demo_lib stuck_world 1 [1, 3] fresh = None \<and>
   main demo_lib stuck_world fresh = None \<and>
   (\<forall>n. pending_after demo_lib stuck_world n 1 [1, 3] \<noteq> [])"
proof -
  have s: "\<forall>it' k. attempt_status demo_lib stuck_world it' k 3 \<noteq> 200 \<and>
            attempt_status demo_lib stuck_world it' k 3 \<noteq> 404"
    by (simp add: stuck_status)
  have m: "(3::int) \<in> set [1, 3]" by simp
  note T = retry_loop_unbounded[of demo_lib stuck_world 1 "[1, 3]" fresh 3]
  from T s m stuck_ids
  have r: "retry_loop demo_lib stuck_world 1 [1, 3] fresh = None"
    and "main demo_lib stuck_world fresh = None"
    by blast+
  moreover from T r have "\<forall>n. pending_after demo_lib stuck_world n 1 [1, 3] \<noteq> []"
    by simp
  ultimately show ?thesis using s m stuck_ids by blast
qed

section \<open>Properties of a whole run\<close>

lemma count_mset_map:
  "count (mset (map f xs)) a = length (filter (\<lambda>x. f x = a) xs)"
  by (induction xs) auto

lemma main_input_raised:
  "get_ids_from_csv (input_csv w) = Inl e \<Longrightarrow> main lib w st = Some (Some e, st)"
  by (simp add: main_def)

lemma main_input_read:
  "get_ids_from_csv (input_csv w) = Inr ids \<Longrightarrow>
   main lib w st =
     (case retry_loop lib w 1 ids (started st) of
        None \<Rightarrow> None
      | Some (Some e, st') \<Rightarrow> Some (Some e, st')
      | Some (None, st') \<Rightarrow> Some (None, create_zip_archive st'))"
  by (simp add: main_def started_def Let_def)

lemma started_frame:
  "output_csv (started st) \<noteq> None"
  "rows_of (started st) = (if output_csv st = None then [header] else rows_of st)"
  "zip_file (started st) = zip_file st"
  by (simp_all add: started_def rows_of_def)

lemma output_csv_rows_of: "output_csv st \<noteq> None \<Longrightarrow> output_csv st = Some (rows_of st)"
  by (auto simp: rows_of_def)

lemma main_returns:
  assumes "get_ids_from_csv (input_csv w) = Inr ids" and "main lib w st = Some (e, st')"
  shows "e = None \<and> zip_file st' \<and>
     (\<exists>new. output_csv st' = Some ((if output_csv st = None then [header] else rows_of st) @ new) \<and>
        mset (map settled_id new) = mset (map fmt06 ids) \<and>
        (\<forall>r \<in> set new. \<exists>it' ids' e' written retry_ids.
            run_round lib w it' ids' = (e', written, retry_ids) \<and> r \<in> set written))"
proof -
  from assms obtain y where y: "retry_loop lib w 1 ids (started st) = Some y"
    by (auto simp: main_input_read split: option.splits)
  from retry_loop_returns[OF y] obtain new where
    a: "fst y = None" "ids = [] \<longrightarrow> snd y = started st"
       "ids \<noteq> [] \<longrightarrow> output_csv (snd y) \<noteq> None"
    and n: "rows_of (snd y) = rows_of (started st) @ new"
       "mset (map settled_id new) = mset (map fmt06 ids)"
       "\<forall>r \<in> set new. \<exists>it' ids' e' written retry_ids.
            run_round lib w it' ids' = (e', written, retry_ids) \<and> r \<in> set written"
    by blast
  from a(1) obtain st1 where y1: "y = (None, st1)" by (cases y) auto
  from assms y y1 have e: "e = None" and s: "st' = create_zip_archive st1"
    by (simp_all add: main_input_read)
  have o: "output_csv st1 \<noteq> None" using a(2,3) y1 started_frame(1)[of st] by (cases "ids = []") auto
  have "output_csv st' = Some (rows_of st1)"
    using output_csv_rows_of[OF o] s by (simp add: create_zip_archive_def)
  then have "output_csv st' = Some ((if output_csv st = None then [header] else rows_of st) @ new)"
    using n(1) y1 by (simp add: started_frame)
  moreover have "zip_file st'" using s by (simp add: create_zip_archive_def)
  ultimately show ?thesis using e n(2,3) by blast
qed

lemma settled_row_shape:
  assumes "run_round lib w it ids = (e, written, retry_ids)" and "r \<in> set written"
  shows "\<exists>i p s. r = [S (fmt06 i), S p, I s] \<and> (s = 200 \<or> s = 404)"
  using written_row_origin[OF assms] by blast

text \<open>
  Claim C1. Let the input file deliver distinct identifiers and let the output file not exist
  before the run. When \<^verbatim>\<open>main\<close> returns, it has raised nothing and has created the archive;
  the output file holds the header followed by exactly one row for every identifier of the
  input, no row for anything else, and every row has status 200 or 404.
\<close>

theorem every_identifier_settled_once:
  assumes "get_ids_from_csv (input_csv w) = Inr ids" and "distinct ids"
    and "output_csv st = None" and "main lib w st = Some (e, st')"
  shows "e = None \<and> zip_file st' \<and>
    (\<exists>rows. output_csv st' = Some (header # rows) \<and> length rows = length ids \<and>
       (\<forall>i \<in> set ids. length (filter (\<lambda>r. settled_id r = fmt06 i) rows) = 1) \<and>
       (\<forall>r \<in> set rows. \<exists>i \<in> set ids. \<exists>p s.
           r = [S (fmt06 i), S p, I s] \<and> (s = 200 \<or> s = 404)))"
proof -
  from main_returns[OF assms(1,4)] assms(3) obtain rows where
    e: "e = None" "zip_file st'" and o: "output_csv st' = Some (header # rows)"
    and m: "mset (map settled_id rows) = mset (map fmt06 ids)"
    and f: "\<forall>r \<in> set rows. \<exists>it' ids' e' written retry_ids.
            run_round lib w it' ids' = (e', written, retry_ids) \<and> r \<in> set written"
    by auto
  have len: "length rows = length ids"
    using m by (metis length_map size_mset)
  have d: "distinct (map fmt06 ids)"
    using assms(2) by (simp add: distinct_map inj_on_def fmt06_inj)
  have once: "\<forall>i \<in> set ids. length (filter (\<lambda>r. settled_id r = fmt06 i) rows) = 1"
  proof
    fix i assume i: "i \<in> set ids"
    have "length (filter (\<lambda>r. settled_id r = fmt06 i) rows)
        = count (mset (map settled_id rows)) (fmt06 i)"
      by (rule count_mset_map[symmetric])
    also have "\<dots> = count (mset (map fmt06 ids)) (fmt06 i)" by (simp only: m)
    also have "\<dots> = 1" using d i by (simp add: distinct_count_atmost_1)
    finally show "length (filter (\<lambda>r. settled_id r = fmt06 i) rows) = 1" .
  qed
  have shape: "\<forall>r \<in> set rows. \<exists>i \<in> set ids. \<exists>p s.
           r = [S (fmt06 i), S p, I s] \<and> (s = 200 \<or> s = 404)"
  proof
    fix r assume r: "r \<in> set rows"
    with f obtain it' ids' e' written retry_ids where
      "run_round lib w it' ids' = (e', written, retry_ids)" "r \<in> set written" by blast
    from settled_row_shape[OF this] obtain j p s where
      js: "r = [S (fmt06 j), S p, I s]" "s = 200 \<or> s = 404" by blast
    have "settled_id r \<in> set (map settled_id rows)" using r by simp
    then have "settled_id r \<in> set (map fmt06 ids)" using m by (metis set_mset_mset)
    then obtain i where i: "i \<in> set ids" "fmt06 i = settled_id r" by auto
    have "settled_id r = fmt06 j" using js(1) by (simp add: settled_id_def)
    with i have "i = j" by (simp add: fmt06_inj)
    with i js show "\<exists>i \<in> set ids. \<exists>p s. r = [S (fmt06 i), S p, I s] \<and> (s = 200 \<or> s = 404)"
      by blast
  qed
  from e o len once shape show ?thesis by blast
qed


lemma scenario_ids: "get_ids_from_csv (input_csv scenario) = Inr [1, 2, 3]"
  by code_simp

lemma scenario_main:
  "main demo_lib scenario fresh =
     Some (None, \<lparr>output_csv = Some [header, [S ''000002'', S ''Not Found'', I 404],
                     [S ''000001'', S ''ABC123'', I 200], [S ''000003'', S ''ZZZ999'', I 200]],
                  zip_file = True\<rparr>)"
  by code_simp

theorem every_identifier_settled_once_witness:
  "get_ids_from_csv (input_csv scenario) = Inr [1, 2, 3] \<and> distinct [1, 2, 3 :: int] \<and>
   output_csv fresh = None \<and>
   main demo_lib scenario fresh =
     Some (None, \<lparr>output_csv = Some [header, [S ''000002'', S ''Not Found'', I 404],
                     [S ''000001'', S ''ABC123'', I 200], [S ''000003'', S ''ZZZ999'', I 200]],
                  zip_file = True\<rparr>) \<and>
   (\<exists>rows. Some [header, [S ''000002'', S ''Not Found'', I 404],
                [S ''000001'', S ''ABC123'', I 200], [S ''000003'', S ''ZZZ999'', I 200]]
             = Some (header # rows) \<and>
      length rows = length [1, 2, 3 :: int] \<and>
      (\<forall>i \<in> set [1, 2, 3]. length (filter (\<lambda>r. settled_id r = fmt06 i) rows) = 1) \<and>
      (\<forall>r \<in> set rows. \<exists>i \<in> set [1, 2, 3]. \<exists>p s.
          r = [S (fmt06 i), S p, I s] \<and> (s = 200 \<or> s = 404)))"
proof -
  have d: "distinct [1, 2, 3 :: int]" by simp
  have o: "output_csv fresh = None" by (simp add: fresh_def)
  from every_identifier_settled_once[OF scenario_ids d o scenario_main]
  show ?thesis using scenario_ids scenario_main d o by simp
qed


text \<open>
  Claim C10 fails as stated: a page that answers 200 and shows the input value \<^verbatim>\<open>Error\<close>
  puts a row with the payload \<^verbatim>\<open>Error\<close> into the output file.
\<close>

theorem error_payload_persisted:
  "main demo_lib echo_world fresh =
     Some (None, \<lparr>output_csv = Some [header, [S ''000007'', S ''Error'', I 200]],
                  zip_file = True\<rparr>)"
  by code_simp


lemma read_rows_append:
  "read_rows (xs @ ys) ids =
     (case read_rows xs ids of Inl e \<Rightarrow> Inl e | Inr ids' \<Rightarrow> read_rows ys ids')"
  by (induction xs arbitrary: ids) (auto split: option.splits sum.splits)

lemma read_rows_skip:
  assumes "row ''Activation ID'' = None \<or>
           (\<exists>s. row ''Activation ID'' = Some (PyStr s) \<and> py_int s = Inl ValueError)"
  shows "read_rows (row # rows) ids = read_rows rows ids"
  using assms by (auto simp: int_of_pyval_def)

lemma get_ids_skip:
  assumes "row ''Activation ID'' = None \<or>
           (\<exists>s. row ''Activation ID'' = Some (PyStr s) \<and> py_int s = Inl ValueError)"
  shows "get_ids_from_csv (Inr (before @ row # after)) = get_ids_from_csv (Inr (before @ after))"
proof -
  have "read_rows (before @ row # after) [] = read_rows (before @ after) []"
    using assms
    by (cases "read_rows before []") (auto simp: read_rows_append int_of_pyval_def)
  then show ?thesis by (simp add: get_ids_from_csv_def)
qed

lemma main_missing_input:
  assumes "input_csv w = Inl FileNotFoundError"
  shows "main lib w st = Some (None, (started st)\<lparr>zip_file := True\<rparr>)"
proof -
  have "get_ids_from_csv (input_csv w) = Inr []" using assms by (simp add: get_ids_from_csv_def)
  then show ?thesis
    by (simp add: main_input_read retry_loop_Nil create_zip_archive_def)
qed

lemma main_unreadable_input:
  assumes "input_csv w = Inl e" and "e \<noteq> FileNotFoundError"
  shows "main lib w st = Some (Some e, st)"
proof -
  have "get_ids_from_csv (input_csv w) = Inl e" using assms by (simp add: get_ids_from_csv_def)
  then show ?thesis by (rule main_input_raised)
qed

text \<open>
  Claim C9 fails as stated: with the input file missing, \<^verbatim>\<open>main\<close> returns normally after
  writing the header to a new output file and creating the archive.
\<close>

theorem missing_input_not_fatal:
  "input_csv missing_input_world = Inl FileNotFoundError \<and>
   main demo_lib missing_input_world fresh =
     Some (None, \<lparr>output_csv = Some [header], zip_file = True\<rparr>)"
proof -
  have "input_csv missing_input_world = Inl FileNotFoundError"
    by (simp add: missing_input_world_def)
  moreover have "main demo_lib missing_input_world fresh =
     Some (None, \<lparr>output_csv = Some [header], zip_file = True\<rparr>)"
    by code_simp
  ultimately show ?thesis by simp
qed

section \<open>Runs that are interrupted or never return\<close>

lemma partial_round_eq:
  "partial_round lib w it ids m =
     (None,
      map (attempt_row lib w it)
        (filter (settles lib w it) (take m (as_completed (completion w it) (enumerate 0 ids)))),
      map snd
        (filter (Not \<circ> settles lib w it)
           (take m (as_completed (completion w it) (enumerate 0 ids)))))"
  by (simp only: partial_round_def submit_all_outcome as_completed_map take_map collect_outcomes)
     simp

lemma run_round_written:
  "fst (snd (run_round lib w it ids)) =
     map (attempt_row lib w it)
       (filter (settles lib w it) (as_completed (completion w it) (enumerate 0 ids)))"
  by (simp add: run_round_eq)

lemma partial_round_written_subset:
  assumes "partial_round lib w it ids m = (e, written, retry_ids)"
  shows "set written \<subseteq> set (fst (snd (run_round lib w it ids)))"
proof -
  let ?kis = "as_completed (completion w it) (enumerate 0 ids)"
  have "written = map (attempt_row lib w it) (filter (settles lib w it) (take m ?kis))"
    using assms by (simp add: partial_round_eq)
  moreover have "set (take m ?kis) \<subseteq> set ?kis" by (rule set_take_subset)
  ultimately show ?thesis by (auto simp: run_round_written)
qed



lemma interrupted_Suc:
  assumes "ids \<noteq> []" and "run_round lib w it ids = (e, written, retry_ids)"
  shows "interrupted lib w (Suc n) m it ids st =
     interrupted lib w n m (it + 1) retry_ids (append_rows st written)"
proof -
  from assms(2) have "e = None" by (simp add: run_round_eq)
  with assms show ?thesis by simp
qed

lemma pending_after_Suc:
  assumes "ids \<noteq> []" and "run_round lib w it ids = (e, written, retry_ids)"
  shows "pending_after lib w (Suc j) it ids = pending_after lib w j (it + 1) retry_ids"
  using assms by simp

lemma interrupted_rows:
  "\<exists>new. rows_of (interrupted lib w n m it ids st) = rows_of st @ new \<and>
     (\<forall>r \<in> set new. \<exists>j \<le> n.
         r \<in> set (fst (snd (run_round lib w (it + j) (pending_after lib w j it ids)))))"
proof (induction n arbitrary: it ids st)
  case 0
  show ?case
  proof (cases "ids = []")
    case True
    then show ?thesis by simp
  next
    case False
    obtain e written retry_ids where pr: "partial_round lib w it ids m = (e, written, retry_ids)"
      by (cases "partial_round lib w it ids m") auto
    have "rows_of (interrupted lib w 0 m it ids st) = rows_of st @ written"
      using False pr by (simp add: rows_of_append_rows)
    moreover have "\<forall>r \<in> set written. \<exists>j \<le> 0.
         r \<in> set (fst (snd (run_round lib w (it + j) (pending_after lib w j it ids))))"
      using partial_round_written_subset[OF pr] by auto
    ultimately show ?thesis by blast
  qed
next
  case (Suc n)
  show ?case
  proof (cases "ids = []")
    case True
    then show ?thesis by simp
  next
    case False
    obtain e written retry_ids where rr: "run_round lib w it ids = (e, written, retry_ids)"
      by (cases "run_round lib w it ids") auto
    let ?st1 = "append_rows st written"
    from Suc.IH[of "it + 1" retry_ids ?st1] obtain new where
      n1: "rows_of (interrupted lib w n m (it + 1) retry_ids ?st1) = rows_of ?st1 @ new"
      and n2: "\<forall>r \<in> set new. \<exists>j \<le> n.
         r \<in> set (fst (snd (run_round lib w (it + 1 + j)
                                (pending_after lib w j (it + 1) retry_ids))))"
      by blast
    have a: "rows_of (interrupted lib w (Suc n) m it ids st) = rows_of st @ (written @ new)"
      by (simp only: interrupted_Suc[OF False rr] n1 rows_of_append_rows append_assoc)
    have b: "\<forall>r \<in> set (written @ new). \<exists>j \<le> Suc n.
         r \<in> set (fst (snd (run_round lib w (it + j) (pending_after lib w j it ids))))"
    proof
      fix r assume "r \<in> set (written @ new)"
      then consider "r \<in> set written" | "r \<in> set new" by auto
      then show "\<exists>j \<le> Suc n.
         r \<in> set (fst (snd (run_round lib w (it + j) (pending_after lib w j it ids))))"
      proof cases
        case 1
        then have "r \<in> set (fst (snd (run_round lib w (it + 0) (pending_after lib w 0 it ids))))"
          using rr by simp
        then show ?thesis by blast
      next
        case 2
        with n2 obtain j where j: "j \<le> n"
          "r \<in> set (fst (snd (run_round lib w (it + 1 + j)
                                 (pending_after lib w j (it + 1) retry_ids))))"
          by blast
        have "pending_after lib w (Suc j) it ids = pending_after lib w j (it + 1) retry_ids"
          by (rule pending_after_Suc[OF False rr])
        moreover have "it + Suc j = it + 1 + j" by simp
        ultimately have
          "r \<in> set (fst (snd (run_round lib w (it + Suc j) (pending_after lib w (Suc j) it ids))))"
          using j(2) by simp
        moreover have "Suc j \<le> Suc n" using j(1) by simp
        ultimately show ?thesis by blast
      qed
    qed
    from a b show ?thesis by blast
  qed
qed


lemma interrupted_zip: "zip_file (interrupted lib w n m it ids st) = zip_file st"
proof (induction n arbitrary: it ids st)
  case 0
  then show ?case by (cases "ids = []") (simp_all add: split_beta append_rows_frame)
next
  case (Suc n)
  show ?case
  proof (cases "ids = []")
    case True
    then show ?thesis by simp
  next
    case False
    obtain e written retry_ids where rr: "run_round lib w it ids = (e, written, retry_ids)"
      by (cases "run_round lib w it ids") auto
    show ?thesis
      by (simp only: interrupted_Suc[OF False rr] Suc.IH append_rows_frame(1))
  qed
qed




section \<open>Routing, the output file and the input file\<close>






lemma main_interrupted_read:
  "get_ids_from_csv (input_csv w) = Inr ids \<Longrightarrow>
   main_interrupted lib w n m st = interrupted lib w n m 1 ids (started st)"
  by (simp add: main_interrupted_def)






lemma stuck_main: "main demo_lib stuck_world st = None"
  using main_diverges[OF stuck_ids, of 3 demo_lib st] by (simp add: stuck_status)


lemma main_interrupted_origin:
  assumes "get_ids_from_csv (input_csv w) = Inr ids"
  shows "\<exists>new. rows_of (main_interrupted lib w n m st) =
             (if output_csv st = None then [header] else rows_of st) @ new \<and>
           (\<forall>r \<in> set new. \<exists>j \<le> n.
              r \<in> set (fst (snd (run_round lib w (1 + j) (pending_after lib w j 1 ids)))))"
  using interrupted_rows[of lib w n m 1 ids "started st"]
  by (simp only: main_interrupted_read[OF assms] started_frame(2))

text \<open>
  Claim C10, as amended. Every row that a round writes, in any run, comes from an attempt of
  that round, at a position of its list, whose \<^verbatim>\<open>try\<close> block did not raise, so no result of
  the exception handler is ever written; the row has status 200 or 404, and its payload is
  \<^verbatim>\<open>Not Found\<close> or the non-empty input value found on the page of that attempt. At any
  moment of a run of \<^verbatim>\<open>main\<close>, returning or not, every row that the run has added after the
  header is a row written by one of the rounds the run has gone through.
\<close>

theorem persisted_payloads:
  "(run_round lib w it ids = (e, written, retry_ids) \<and> r \<in> set written \<longrightarrow>
      (\<exists>k i data saved. k < length ids \<and> ids ! k = i \<and>
           process_try lib (fetch w it k i) (activation_url i) (initial_result i)
             = Inr (data, saved) \<and>
           r = [S (fmt06 i), S (secret_code data), I (status data)] \<and>
           (status data = 200 \<or> status data = 404) \<and>
           (secret_code data = ''Not Found'' \<or>
            (\<exists>resp doc. page (fetch w it k i) = Inr resp \<and> status_code resp = 200 \<and>
               soup resp = Inr doc \<and> input_value doc = Some (secret_code data))))) \<and>
   (get_ids_from_csv (input_csv w) = Inr ids0 \<longrightarrow>
      (\<exists>new. rows_of (main_interrupted lib w n m st) =
                (if output_csv st = None then [header] else rows_of st) @ new \<and>
              (\<forall>r' \<in> set new. \<exists>j \<le> n.
                 r' \<in> set (fst (snd (run_round lib w (1 + j)
                                        (pending_after lib w j 1 ids0)))))))"
  using written_row_origin[of lib w it ids e written retry_ids r]
    main_interrupted_origin[of w ids0 lib n m st]
  by blast

lemma stuck_round_1:
  "run_round demo_lib stuck_world 1 [1, 3] = (None, [[S ''000001'', S ''Not Found'', I 200]], [3])"
  by code_simp

theorem persisted_payloads_witness:
  "run_round demo_lib stuck_world 1 [1, 3] =
     (None, [[S ''000001'', S ''Not Found'', I 200]], [3]) \<and>
   [S ''000001'', S ''Not Found'', I 200] \<in> set [[S ''000001'', S ''Not Found'', I 200]] \<and>
   (\<exists>k i data saved. k < length [1, 3 :: int] \<and> [1, 3] ! k = i \<and>
       process_try demo_lib (fetch stuck_world 1 k i) (activation_url i) (initial_result i)
         = Inr (data, saved) \<and>
       [S ''000001'', S ''Not Found'', I 200] =
         [S (fmt06 i), S (secret_code data), I (status data)] \<and>
       (status data = 200 \<or> status data = 404) \<and>
       (secret_code data = ''Not Found'' \<or>
        (\<exists>resp doc. page (fetch stuck_world 1 k i) = Inr resp \<and> status_code resp = 200 \<and>
           soup resp = Inr doc \<and> input_value doc = Some (secret_code data)))) \<and>
   get_ids_from_csv (input_csv stuck_world) = Inr [1, 3] \<and>
   main demo_lib stuck_world resumed = None \<and>
   (\<exists>new. rows_of (main_interrupted demo_lib stuck_world 1 0 resumed) =
             (if output_csv resumed = None then [header] else rows_of resumed) @ new \<and>
           (\<forall>r' \<in> set new. \<exists>j \<le> 1.
              r' \<in> set (fst (snd (run_round demo_lib stuck_world (1 + j)
                                     (pending_after demo_lib stuck_world j 1 [1, 3]))))))"
proof -
  have m: "[S ''000001'', S ''Not Found'', I 200] \<in> set [[S ''000001'', S ''Not Found'', I 200]]"
    by simp
  note T = persisted_payloads[where lib = demo_lib and w = stuck_world and it = 1
      and ids = "[1, 3]" and e = None and written = "[[S ''000001'', S ''Not Found'', I 200]]"
      and retry_ids = "[3]" and r = "[S ''000001'', S ''Not Found'', I 200]"
      and ids0 = "[1, 3]" and n = 1 and m = 0 and st = resumed]
  from T stuck_round_1 m have a:
   "\<exists>k i data saved. k < length [1, 3 :: int] \<and> [1, 3] ! k = i \<and>
       process_try demo_lib (fetch stuck_world 1 k i) (activation_url i) (initial_result i)
         = Inr (data, saved) \<and>
       [S ''000001'', S ''Not Found'', I 200] =
         [S (fmt06 i), S (secret_code data), I (status data)] \<and>
       (status data = 200 \<or> status data = 404) \<and>
       (secret_code data = ''Not Found'' \<or>
        (\<exists>resp doc. page (fetch stuck_world 1 k i) = Inr resp \<and> status_code resp = 200 \<and>
           soup resp = Inr doc \<and> input_value doc = Some (secret_code data)))"
    by blast
  from T stuck_ids have b:
   "\<exists>new. rows_of (main_interrupted demo_lib stuck_world 1 0 resumed) =
             (if output_csv resumed = None then [header] else rows_of resumed) @ new \<and>
           (\<forall>r' \<in> set new. \<exists>j \<le> 1.
              r' \<in> set (fst (snd (run_round demo_lib stuck_world (1 + j)
                                     (pending_after demo_lib stuck_world j 1 [1, 3])))))"
    by blast
  from a b m stuck_round_1 stuck_ids stuck_main[of resumed] show ?thesis by blast
qed

lemma get_ids_skip_bounded:
  assumes "row ''Activation ID'' = None \<or>
           (\<exists>s. row ''Activation ID'' = Some (PyStr s) \<and> length s \<le> 4300 \<and>
                py_int s = Inl ValueError)"
  shows "get_ids_from_csv (Inr (before @ row # after)) = get_ids_from_csv (Inr (before @ after))"
  using assms by (intro get_ids_skip) blast

text \<open>
  Claim C9, as amended. When the input file is missing, \<^verbatim>\<open>get_ids_from_csv\<close> returns the
  empty list and \<^verbatim>\<open>main\<close> goes on: it runs no round, creates the output file with its header
  if there was none, creates the archive and returns normally. Any other exception of
  opening or reading the input file leaves \<^verbatim>\<open>main\<close> at once, with the file system as it was.
  A row is skipped when its dictionary has no key \<^verbatim>\<open>Activation ID\<close>, which is the case of
  every row when the header has no such column, or when its identifier cell is a string of at
  most 4300 characters that \<^verbatim>\<open>int\<close> rejects.
\<close>

theorem input_failures:
  "(input_csv w = Inl FileNotFoundError \<longrightarrow>
      main lib w st = Some (None, (started st)\<lparr>zip_file := True\<rparr>)) \<and>
   (input_csv w = Inl e \<and> e \<noteq> FileNotFoundError \<longrightarrow> main lib w st = Some (Some e, st)) \<and>
   (row ''Activation ID'' = None \<or>
    (\<exists>s. row ''Activation ID'' = Some (PyStr s) \<and> length s \<le> 4300 \<and>
         py_int s = Inl ValueError) \<longrightarrow>
      get_ids_from_csv (Inr (before @ row # after)) = get_ids_from_csv (Inr (before @ after)))"
  using main_missing_input[of w lib st] main_unreadable_input[of w e lib st]
    get_ids_skip_bounded[of row before after]
  by blast

theorem input_failures_witness:
  "input_csv missing_input_world = Inl FileNotFoundError \<and>
   main demo_lib missing_input_world resumed = Some (None, resumed\<lparr>zip_file := True\<rparr>) \<and>
   input_csv unreadable_input_world = Inl OSError \<and> OSError \<noteq> FileNotFoundError \<and>
   main demo_lib unreadable_input_world fresh = Some (Some OSError, fresh) \<and>
   id_row ''12a'' ''Activation ID'' = Some (PyStr ''12a'') \<and> length ''12a'' \<le> 4300 \<and>
   py_int ''12a'' = Inl ValueError \<and>
   get_ids_from_csv (Inr ([id_row ''1''] @ id_row ''12a'' # [id_row ''3''])) =
     get_ids_from_csv (Inr ([id_row ''1''] @ [id_row ''3''])) \<and>
   get_ids_from_csv (Inr ([id_row ''1''] @ [id_row ''3''])) = Inr [1, 3]"
proof -
  have a: "input_csv missing_input_world = Inl FileNotFoundError"
    by (simp add: missing_input_world_def)
  have b: "input_csv unreadable_input_world = Inl OSError \<and> OSError \<noteq> FileNotFoundError"
    by (simp add: unreadable_input_world_def)
  have c: "id_row ''12a'' ''Activation ID'' = Some (PyStr ''12a'')" by (simp add: id_row_def)
  have l: "length ''12a'' \<le> 4300" by simp
  have d: "py_int ''12a'' = Inl ValueError" by code_simp
  have s: "started resumed = resumed" by (simp add: started_def resumed_def)
  have g: "get_ids_from_csv (Inr ([id_row ''1''] @ [id_row ''3''])) = Inr [1, 3]" by code_simp
  from input_failures[where w = missing_input_world and lib = demo_lib and st = resumed] a s
  have 1: "main demo_lib missing_input_world resumed = Some (None, resumed\<lparr>zip_file := True\<rparr>)"
    by simp
  from input_failures[where w = unreadable_input_world and e = OSError and lib = demo_lib and st = fresh] b
  have 2: "main demo_lib unreadable_input_world fresh = Some (Some OSError, fresh)" by blast
  from input_failures[where row = "id_row ''12a''" and before = "[id_row ''1'']"
      and after = "[id_row ''3'']"] c d l
  have 3: "get_ids_from_csv (Inr ([id_row ''1''] @ id_row ''12a'' # [id_row ''3''])) =
     get_ids_from_csv (Inr ([id_row ''1''] @ [id_row ''3'']))" by blast
  from a b c d l g 1 2 3 show ?thesis by blast
qed

text \<open>
  Beside these cases, a line shorter than the header gives a row whose identifier cell is
  \<^verbatim>\<open>None\<close>; \<^verbatim>\<open>int\<close> then raises \<^verbatim>\<open>TypeError\<close>, which neither handler of
  \<^verbatim>\<open>get_ids_from_csv\<close> catches.
\<close>

lemma short_row_raises:
  assumes "row ''Activation ID'' = Some PyNone"
  shows "get_ids_from_csv (Inr (row # rows)) = Inl TypeError"
  using assms by (simp add: get_ids_from_csv_def int_of_pyval_def)

text \<open>
  A reference that \<^verbatim>\<open>urljoin\<close> refuses is a second way for an asset to fail the whole fetch:
  the join happens outside \<^verbatim>\<open>download_asset\<close>, so the exception reaches the handler of
  \<^verbatim>\<open>process_activation_id\<close>.
\<close>

lemma bad_reference_fails_fetch:
  "process_activation_id strict_lib bad_reference_env 7 =
     Inr (\<lparr>id' = ''000007'', secret_code = ''Error'', status = 0\<rparr>, None)"
  by (simp add: process_activation_id_def process_try_def save_fragment_def bad_reference_env_def
      page_env_def card_page_def strict_lib_def demo_lib_def initial_result_def fmt06_7
      parse_secret_code_def)

end
